theory Spec2Isabelle
  imports Complex_Main "HOL-Library.Multiset" "HOL-Library.Sublist"
begin

section \<open>Data model\<close>

text \<open>
  A JavaScript number is a real here. Section \<open>Double arithmetic\<close> gives the rounding
  of IEEE 754 binary64; the greedy solver, the construction of the QUBO matrix and the
  generation of the mesh candidates compute with it. \<open>quadratic_form\<close> is the value \<open>x\<^sup>T Q x\<close> of a matrix, and the annealing search
  compares energies, both without rounding.

  A mesh-mode candidate is the object pushed by the mesh loop of the solve handler:
  \<^verbatim>\<open>{ lat, lng, cost: cellSize.price, energy: cellSize.energy, dist }\<close>.
\<close>

record point =
  lat :: real
  lng :: real

record candidate = point +
  cost :: real
  energy :: real
  dist :: real

type_synonym matrix = "real list list"

section \<open>Double arithmetic\<close>

text \<open>
  The finite doubles are 0 and the numbers \<open>m * 2^e\<close> with \<open>m\<close> an integer, \<open>|m| < 2^53\<close>
  and \<open>- 1074 \<le> e \<le> 971\<close>. An arithmetic operation of JavaScript returns the exact result
  rounded to the nearest double, a tie going to the even significand. For \<open>x\<close> in a binade
  \<open>2^p \<le> |x| < 2^(p+1)\<close> the doubles are spaced \<open>2^(p-52)\<close> apart, and \<open>2^(- 1074)\<close> apart
  below \<open>2^(- 1022)\<close> (the subnormal range); \<open>ulp_exp\<close> is the exponent of that spacing.
  A result of magnitude \<open>2^1024\<close> or more stands for an infinity, which is larger than every double
  in a comparison, as the infinity is; NaN is not a value of the model.
\<close>

definition round_even :: "real \<Rightarrow> int" where
  "round_even y =
     (let f = \<lfloor>y\<rfloor> in
      if y - of_int f < 1 / 2 then f
      else if y - of_int f > 1 / 2 then f + 1
      else if even f then f else f + 1)"

definition ulp_exp :: "real \<Rightarrow> int" where
  "ulp_exp x = max (- 1074) (\<lfloor>log 2 \<bar>x\<bar>\<rfloor> - 52)"

definition dbl :: "real \<Rightarrow> real" where
  "dbl x = (if x = 0 then 0 else of_int (round_even (x / 2 powi ulp_exp x)) * 2 powi ulp_exp x)"

text \<open>The operators \<open>+\<close>, \<open>-\<close>, \<open>*\<close> and \<open>/\<close> on numbers.\<close>

definition fadd :: "real \<Rightarrow> real \<Rightarrow> real" where
  "fadd x y = dbl (x + y)"

definition fsub :: "real \<Rightarrow> real \<Rightarrow> real" where
  "fsub x y = dbl (x - y)"

definition fmul :: "real \<Rightarrow> real \<Rightarrow> real" where
  "fmul x y = dbl (x * y)"

definition fdiv :: "real \<Rightarrow> real \<Rightarrow> real" where
  "fdiv x y = dbl (x / y)"

section \<open>narGreedyBudget\<close>

text \<open>
  \<^verbatim>\<open>
  function narGreedyBudget(Q, candidates, budget) {
    const idxs = candidates.map((c, i) => i)
      .sort((a, b) => (candidates[b].energy / candidates[b].cost)
                    - (candidates[a].energy / candidates[a].cost));
    let total = 0;
    let selected = [];
    for (let i of idxs) {
      if (total + candidates[i].cost <= budget) {
        selected.push(i);
        total += candidates[i].cost;
      }
    }
    return candidates.map((_, i) => selected.includes(i) ? 1 : 0);
  }
  \<close>
  The comparator subtracts two quotients, each rounded to a double. The difference of two
  distinct doubles does not round to 0, so the sign of the comparator is the order of the
  two rounded quotients \<open>ratio\<close>. \<open>Array.prototype.sort\<close> is a stable sort, and the comparator
  puts \<open>a\<close> before \<open>b\<close> when the ratio of \<open>a\<close> is the larger one: an ascending stable sort
  on the negated ratio. The ratio is a number for a nonzero cost and a quotient within the
  range of the doubles (JavaScript gives an infinity or NaN otherwise).
\<close>

definition ratio :: "candidate list \<Rightarrow> nat \<Rightarrow> real" where
  "ratio candidates i = fdiv (energy (candidates ! i)) (cost (candidates ! i))"

definition idxs_of :: "candidate list \<Rightarrow> nat list" where
  "idxs_of candidates = sort_key (\<lambda>i. - ratio candidates i) [0..<length candidates]"

text \<open>The \<open>for (let i of idxs)\<close> loop, with its two variables \<open>total\<close> (here \<open>tot\<close>) and
  \<open>selected\<close>.\<close>

fun greedy_loop :: "candidate list \<Rightarrow> real \<Rightarrow> nat list \<Rightarrow> real \<Rightarrow> nat list \<Rightarrow> nat list" where
  "greedy_loop candidates budget [] tot selected = selected"
| "greedy_loop candidates budget (i # rest) tot selected =
     (if fadd tot (cost (candidates ! i)) \<le> budget
      then greedy_loop candidates budget rest (fadd tot (cost (candidates ! i))) (selected @ [i])
      else greedy_loop candidates budget rest tot selected)"

definition narGreedyBudget :: "matrix \<Rightarrow> candidate list \<Rightarrow> real \<Rightarrow> int list" where
  "narGreedyBudget Q candidates budget =
     (let idxs = idxs_of candidates;
          selected = greedy_loop candidates budget idxs 0 []
      in map (\<lambda>i. if i \<in> set selected then 1 else 0) [0..<length candidates])"

text \<open>
  The cost of a selection vector: the exact sum of the costs of the candidates whose
  entry is 1.
\<close>

definition selection_cost :: "candidate list \<Rightarrow> int list \<Rightarrow> real" where
  "selection_cost candidates x =
     (\<Sum>i\<leftarrow>[0..<length candidates]. if x ! i = 1 then cost (candidates ! i) else 0)"

text \<open>
  The running total the loop holds when it reaches position \<open>k\<close> of the rank order: the
  costs of the candidates at earlier positions that ended up selected, added one after the
  other in that order, each sum rounded.
\<close>

definition running_total :: "candidate list \<Rightarrow> nat list \<Rightarrow> int list \<Rightarrow> nat \<Rightarrow> real" where
  "running_total candidates idxs x k =
     fold (\<lambda>i tot. if x ! i = 1 then fadd tot (cost (candidates ! i)) else tot) (take k idxs) 0"

text \<open>
  The most by which a sum \<open>total + cost\<close> that passes the test \<^verbatim>\<open>total + cost <= budget\<close> can
  exceed its rounded value: half the spacing of the doubles at a number whose rounded
  value is at most the budget.
\<close>

definition rounding_slack :: "real \<Rightarrow> real" where
  "rounding_slack budget = 2 powi (- 1075) + (budget + 2 powi (- 1075)) / (2 ^ 53 - 1)"

definition mk_candidate :: "real \<Rightarrow> real \<Rightarrow> candidate" where
  "mk_candidate c e = \<lparr>lat = 0, lng = 0, cost = c, energy = e, dist = 0\<rparr>"

text \<open>Scenario B of the specification: costs 10, 20, 15, energies 5, 8, 6 (budget 25).\<close>

definition scenario_B :: "candidate list" where
  "scenario_B = [mk_candidate 10 5, mk_candidate 20 8, mk_candidate 15 6]"

text \<open>
  Costs \<open>0.1\<close>, \<open>0.2\<close>, \<open>0.3\<close> and energies \<open>0.1\<close>, \<open>0.4\<close>, \<open>1.2\<close>, for the budget \<open>0.6\<close>: each
  literal is the double nearest to the decimal.
\<close>

definition tenths :: "candidate list" where
  "tenths = [mk_candidate (dbl (1 / 10)) (dbl (1 / 10)), mk_candidate (dbl (2 / 10)) (dbl (4 / 10)),
             mk_candidate (dbl (3 / 10)) (dbl (12 / 10))]"

text \<open>
  Two candidates whose quotients energy/cost differ, \<open>999999999 / 10^9\<close> against
  \<open>10^9 / 1000000001\<close>, and round to the same double.
\<close>

definition near_tie :: "candidate list" where
  "near_tie = [mk_candidate 1000000000 999999999, mk_candidate 1000000001 1000000000]"

section \<open>Downsampling of a QUBO export\<close>

text \<open>
  The \<open>quboOnly\<close> branch of both handlers:
  \<^verbatim>\<open>
  const maxCandidates = 1000;
  if (candidates.length > maxCandidates) {
    const step = Math.ceil(candidates.length / maxCandidates);
    const reducedCandidates = candidates.filter((_, i) => i % step === 0).slice(0, maxCandidates);
    const reducedQ = reducedCandidates.map((_, i) =>
      reducedCandidates.map((_, j) => Q[i * step]?.[j * step] ?? 0));
    return res.status(200).json({ Q: reducedQ, candidates: reducedCandidates, budget });
  }
  return res.status(200).json({ Q, candidates, budget });
  \<close>
\<close>

definition maxCandidates :: nat where
  "maxCandidates = 1000"

definition step_of :: "nat \<Rightarrow> nat" where
  "step_of n = nat \<lceil>real n / real maxCandidates\<rceil>"

definition reducedCandidates :: "'c list \<Rightarrow> 'c list" where
  "reducedCandidates candidates =
     take maxCandidates
       (map (\<lambda>i. candidates ! i)
          (filter (\<lambda>i. i mod step_of (length candidates) = 0) [0..<length candidates]))"

text \<open>\<^verbatim>\<open>Q[a]?.[b] ?? 0\<close>: a missing row or a missing entry reads as 0.\<close>

definition Q_at :: "matrix \<Rightarrow> nat \<Rightarrow> nat \<Rightarrow> real" where
  "Q_at Q a b = (if a < length Q then (if b < length (Q ! a) then Q ! a ! b else 0) else 0)"

definition reducedQ :: "matrix \<Rightarrow> 'c list \<Rightarrow> matrix" where
  "reducedQ Q candidates =
     (let step = step_of (length candidates);
          m = length (reducedCandidates candidates)
      in map (\<lambda>i. map (\<lambda>j. Q_at Q (i * step) (j * step)) [0..<m]) [0..<m])"

text \<open>The pair \<open>(Q, candidates)\<close> that the export returns.\<close>

definition qubo_export :: "matrix \<Rightarrow> 'c list \<Rightarrow> matrix \<times> 'c list" where
  "qubo_export Q candidates =
     (if length candidates > maxCandidates
      then (reducedQ Q candidates, reducedCandidates candidates)
      else (Q, candidates))"

section \<open>The QUBO matrix\<close>

text \<open>
  Both handlers start from \<^verbatim>\<open>Array.from({ length: n }, (_, i) => Array(n).fill(0))\<close> and
  update single entries with \<^verbatim>\<open>Q[i][j] += v\<close> (\<^verbatim>\<open>-=\<close> in one place), which stores the
  rounded sum (difference) of the entry and \<open>v\<close>. Every operator is rounded, in the order
  in which JavaScript evaluates the expression: \<^verbatim>\<open>2 * theta * C[i] * C[j]\<close> is
  \<^verbatim>\<open>((2 * theta) * C[i]) * C[j]\<close>. The result of \<^verbatim>\<open>x ** 2\<close> is left to the implementation by
  the language, so the squaring is a parameter \<open>sq\<close> of the construction.
\<close>

definition zero_matrix :: "nat \<Rightarrow> matrix" where
  "zero_matrix n = replicate n (replicate n 0)"

definition apply_at :: "matrix \<Rightarrow> nat \<Rightarrow> nat \<Rightarrow> (real \<Rightarrow> real) \<Rightarrow> matrix" where
  "apply_at Q i j h = Q[i := (Q ! i)[j := h (Q ! i ! j)]]"

definition add_to :: "matrix \<Rightarrow> nat \<Rightarrow> nat \<Rightarrow> real \<Rightarrow> matrix" where
  "add_to Q i j v = apply_at Q i j (\<lambda>q. fadd q v)"

definition sub_from :: "matrix \<Rightarrow> nat \<Rightarrow> nat \<Rightarrow> real \<Rightarrow> matrix" where
  "sub_from Q i j v = apply_at Q i j (\<lambda>q. fsub q v)"

text \<open>
  The body of the inner \<open>j\<close> loop, the same in both handlers:
  \<^verbatim>\<open>
  if (i === j) continue;
  Q[i][j] += 2 * theta * C[i] * C[j];
  Q[i][j] += 2 * mu;
  Q[i][j] += 2 * lambda * P[i] * P[j];
  \<close>
\<close>

definition cross_terms ::
  "real \<Rightarrow> real \<Rightarrow> real \<Rightarrow> real list \<Rightarrow> real list \<Rightarrow> nat \<Rightarrow> nat \<Rightarrow> matrix \<Rightarrow> matrix" where
  "cross_terms theta mu lambda C P i j Q =
     (if i = j then Q
      else let Q = add_to Q i j (fmul (fmul (fmul 2 theta) (C ! i)) (C ! j));
               Q = add_to Q i j (fmul 2 mu);
               Q = add_to Q i j (fmul (fmul (fmul 2 lambda) (P ! i)) (P ! j))
           in Q)"

text \<open>
  Filter mode (the handler over the site dataset). The weights are constants of the
  handler (\<open>alpha = 1e-1\<close>, \<open>gamma = 1e-1\<close>, \<open>theta = 1e-6\<close>, \<open>mu = 2\<close>, \<open>lambda = 1e-2\<close>);
  they are parameters here. The count and coverage targets this handler uses are
  \<open>max_grids\<close> and \<open>min_population\<close>.
  \<^verbatim>\<open>
  for (let i = 0; i < n; i++) {
    Q[i][i] += C[i] - alpha * P[i] - gamma * E[i];
    Q[i][i] += theta * (C[i] ** 2 - 2 * budget * C[i]);
    Q[i][i] += mu * (1 - 2 * max_grids);
    Q[i][i] += lambda * (P[i] ** 2 - 2 * min_population * P[i]);
    for (let j = 0; j < n; j++) { ... }
  }
  Q[0][0] += theta * budget ** 2 + mu * max_grids ** 2 + lambda * min_population ** 2;
  \<close>
  The last line reads \<open>Q[0]\<close>, which is undefined for \<open>n = 0\<close>; the handlers reach the
  construction with a non-empty candidate list only.
\<close>

definition filter_diag ::
  "(real \<Rightarrow> real) \<Rightarrow> real \<Rightarrow> real \<Rightarrow> real \<Rightarrow> real \<Rightarrow> real \<Rightarrow> real list \<Rightarrow> real list \<Rightarrow>
   real list \<Rightarrow> real \<Rightarrow> real \<Rightarrow> real \<Rightarrow> nat \<Rightarrow> matrix \<Rightarrow> matrix" where
  "filter_diag sq alpha gamma theta mu lambda C P E budget max_grids min_population i Q =
     (let Q = add_to Q i i (fsub (fsub (C ! i) (fmul alpha (P ! i))) (fmul gamma (E ! i)));
          Q = add_to Q i i (fmul theta (fsub (sq (C ! i)) (fmul (fmul 2 budget) (C ! i))));
          Q = add_to Q i i (fmul mu (fsub 1 (fmul 2 max_grids)));
          Q = add_to Q i i
                (fmul lambda (fsub (sq (P ! i)) (fmul (fmul 2 min_population) (P ! i))))
      in Q)"

definition filter_row ::
  "(real \<Rightarrow> real) \<Rightarrow> real \<Rightarrow> real \<Rightarrow> real \<Rightarrow> real \<Rightarrow> real \<Rightarrow> nat \<Rightarrow> real list \<Rightarrow> real list \<Rightarrow>
   real list \<Rightarrow> real \<Rightarrow> real \<Rightarrow> real \<Rightarrow> nat \<Rightarrow> matrix \<Rightarrow> matrix" where
  "filter_row sq alpha gamma theta mu lambda n C P E budget max_grids min_population i Q =
     fold (cross_terms theta mu lambda C P i) [0..<n]
       (filter_diag sq alpha gamma theta mu lambda C P E budget max_grids min_population i Q)"

definition buildQ_filter ::
  "(real \<Rightarrow> real) \<Rightarrow> real \<Rightarrow> real \<Rightarrow> real \<Rightarrow> real \<Rightarrow> real \<Rightarrow> nat \<Rightarrow> real list \<Rightarrow> real list \<Rightarrow>
   real list \<Rightarrow> real \<Rightarrow> real \<Rightarrow> real \<Rightarrow> matrix" where
  "buildQ_filter sq alpha gamma theta mu lambda n C P E budget max_grids min_population =
     (let Q = fold (filter_row sq alpha gamma theta mu lambda n C P E budget max_grids
                      min_population) [0..<n] (zero_matrix n)
      in add_to Q 0 0
           (fadd (fadd (fmul theta (sq budget)) (fmul mu (sq max_grids)))
                 (fmul lambda (sq min_population))))"

text \<open>
  Mesh mode (\<open>alpha = 1\<close>, \<open>theta = mu = lambda = 1000\<close>, no energy term):
  \<^verbatim>\<open>
  for (let i = 0; i < n; i++) {
    Q[i][i] += C[i];
    Q[i][i] += theta * (C[i] ** 2);
    Q[i][i] += mu;
    Q[i][i] += lambda * (P[i] ** 2);
    Q[i][i] -= alpha * P[i];
    Q[i][i] += -2 * theta * budget * C[i];
    Q[i][i] += -2 * mu * K;
    Q[i][i] += -2 * lambda * M * P[i];
  }
  for (let i = 0; i < n; i++) {
    for (let j = 0; j < n; j++) { ... }
  }
  Q[0][0] += theta * (budget ** 2) + mu * (K ** 2) + lambda * (M ** 2);
  \<close>
\<close>

definition mesh_diag ::
  "(real \<Rightarrow> real) \<Rightarrow> real \<Rightarrow> real \<Rightarrow> real \<Rightarrow> real \<Rightarrow> real list \<Rightarrow> real list \<Rightarrow> real \<Rightarrow> real \<Rightarrow>
   real \<Rightarrow> nat \<Rightarrow> matrix \<Rightarrow> matrix" where
  "mesh_diag sq alpha theta mu lambda C P budget Kmax Mmin i Q =
     (let Q = add_to Q i i (C ! i);
          Q = add_to Q i i (fmul theta (sq (C ! i)));
          Q = add_to Q i i mu;
          Q = add_to Q i i (fmul lambda (sq (P ! i)));
          Q = sub_from Q i i (fmul alpha (P ! i));
          Q = add_to Q i i (fmul (fmul (fmul (- 2) theta) budget) (C ! i));
          Q = add_to Q i i (fmul (fmul (- 2) mu) Kmax);
          Q = add_to Q i i (fmul (fmul (fmul (- 2) lambda) Mmin) (P ! i))
      in Q)"

definition buildQ_mesh ::
  "(real \<Rightarrow> real) \<Rightarrow> real \<Rightarrow> real \<Rightarrow> real \<Rightarrow> real \<Rightarrow> nat \<Rightarrow> real list \<Rightarrow> real list \<Rightarrow> real \<Rightarrow>
   real \<Rightarrow> real \<Rightarrow> matrix" where
  "buildQ_mesh sq alpha theta mu lambda n C P budget Kmax Mmin =
     (let Q = fold (mesh_diag sq alpha theta mu lambda C P budget Kmax Mmin) [0..<n]
                (zero_matrix n);
          Q = fold (\<lambda>i. fold (cross_terms theta mu lambda C P i) [0..<n]) [0..<n] Q
      in add_to Q 0 0
           (fadd (fadd (fmul theta (sq budget)) (fmul mu (sq Kmax))) (fmul lambda (sq Mmin))))"

text \<open>The squaring that returns the rounded square, for the instances below.\<close>

definition sq_rounded :: "real \<Rightarrow> real" where
  "sq_rounded x = dbl (x * x)"

text \<open>
  The value both constructions leave at an entry off the diagonal: three rounded additions
  to the initial 0.
\<close>

definition cross_value :: "real \<Rightarrow> real \<Rightarrow> real \<Rightarrow> real list \<Rightarrow> real list \<Rightarrow> nat \<Rightarrow> nat \<Rightarrow> real" where
  "cross_value theta mu lambda C P i j =
     fadd (fadd (fadd 0 (fmul (fmul (fmul 2 theta) (C ! i)) (C ! j))) (fmul 2 mu))
          (fmul (fmul (fmul 2 lambda) (P ! i)) (P ! j))"

text \<open>
  The quadratic form \<open>x\<^sup>T Q x\<close> of a selection vector, summed as the \<open>energy\<close> function of
  the annealing solver sums it: \<^verbatim>\<open>e += Q[i][j] * x[i] * x[j]\<close> over all \<open>i, j < n\<close>.
\<close>

definition quadratic_form :: "matrix \<Rightarrow> nat \<Rightarrow> int list \<Rightarrow> real" where
  "quadratic_form Q n x =
     (\<Sum>i\<leftarrow>[0..<n]. \<Sum>j\<leftarrow>[0..<n]. Q ! i ! j * real_of_int (x ! i) * real_of_int (x ! j))"

text \<open>
  The value the specification gives for the quadratic form: the objective plus the
  three squared penalties.
\<close>

definition spec_objective ::
  "real \<Rightarrow> real \<Rightarrow> real \<Rightarrow> real \<Rightarrow> real \<Rightarrow> nat \<Rightarrow> real list \<Rightarrow> real list \<Rightarrow> real list \<Rightarrow>
   real \<Rightarrow> real \<Rightarrow> real \<Rightarrow> int list \<Rightarrow> real" where
  "spec_objective alpha gamma theta mu lambda n C P E B Kmax Mmin x =
     (\<Sum>i\<leftarrow>[0..<n]. C ! i * real_of_int (x ! i))
     - alpha * (\<Sum>i\<leftarrow>[0..<n]. P ! i * real_of_int (x ! i))
     - gamma * (\<Sum>i\<leftarrow>[0..<n]. E ! i * real_of_int (x ! i))
     + theta * ((\<Sum>i\<leftarrow>[0..<n]. C ! i * real_of_int (x ! i)) - B)\<^sup>2
     + mu * ((\<Sum>i\<leftarrow>[0..<n]. real_of_int (x ! i)) - Kmax)\<^sup>2
     + lambda * (Mmin - (\<Sum>i\<leftarrow>[0..<n]. P ! i * real_of_int (x ! i)))\<^sup>2"

text \<open>A matrix with \<open>n\<close> rows of \<open>n\<close> entries.\<close>

definition square :: "nat \<Rightarrow> matrix \<Rightarrow> bool" where
  "square n Q \<longleftrightarrow> length Q = n \<and> list_all (\<lambda>row. length row = n) Q"

text \<open>
  An update that keeps the shape and changes every entry \<open>(a, b)\<close> off the diagonal by a
  function \<open>g a b\<close> of that entry alone.
\<close>

definition acts_off :: "nat \<Rightarrow> (matrix \<Rightarrow> matrix) \<Rightarrow> (nat \<Rightarrow> nat \<Rightarrow> real \<Rightarrow> real) \<Rightarrow> bool" where
  "acts_off n f g \<longleftrightarrow>
     (\<forall>Q. square n Q \<longrightarrow>
        square n (f Q) \<and> (\<forall>a<n. \<forall>b<n. a \<noteq> b \<longrightarrow> f Q ! a ! b = g a b (Q ! a ! b)))"

section \<open>simulatedAnnealingQUBO\<close>

text \<open>
  \<^verbatim>\<open>
  function energy(x) {
    let e = 0, cost = 0;
    for (let i = 0; i < n; i++) {
      if (x[i]) cost += candidates[i].cost;
      for (let j = 0; j < n; j++) e += Q[i][j] * x[i] * x[j];
    }
    if (cost > budget) e += costPenalty * (cost - budget) ** 2;
    return e;
  }
  \<close>
  with \<^verbatim>\<open>const costPenalty = 10000 / budget\<close>. The name \<open>energy\<close> is a field of the candidate
  record, so the function is \<open>sa_energy\<close> here.
\<close>

definition sa_energy :: "matrix \<Rightarrow> nat \<Rightarrow> candidate list \<Rightarrow> real \<Rightarrow> int list \<Rightarrow> real" where
  "sa_energy Q n candidates budget x =
     (let costPenalty = 10000 / budget;
          e = quadratic_form Q n x;
          c = (\<Sum>i\<leftarrow>[0..<n]. if x ! i \<noteq> 0 then cost (candidates ! i) else 0)
      in if c > budget then e + costPenalty * (c - budget)\<^sup>2 else e)"

text \<open>
  The variables of the search loop. \<open>bestE\<close> starts as \<open>Infinity\<close>, which is \<open>None\<close> here.
  \<open>Math.random()\<close> is a sequence \<open>rnd\<close> of draws from \<open>[0, 1)\<close>; \<open>sa_calls\<close> counts the draws
  taken so far, so that the next call returns \<open>rnd (sa_calls st)\<close>.
\<close>

record sa_state =
  sa_x :: "int list"
  sa_bestX :: "int list"
  sa_bestE :: "real option"
  sa_T :: real
  sa_calls :: nat

text \<open>\<^verbatim>\<open>e2 < bestE\<close>, where \<open>bestE\<close> may still be \<open>Infinity\<close>.\<close>

definition below_best :: "real \<Rightarrow> real option \<Rightarrow> bool" where
  "below_best e bestE = (case bestE of None \<Rightarrow> True | Some b \<Rightarrow> e < b)"

text \<open>
  One iteration of
  \<^verbatim>\<open>
  for (let iter = 0; iter < maxIter; iter++) {
    let i = Math.floor(Math.random() * n);
    let x2 = x.slice(); x2[i] = 1 - x2[i];
    let e1 = energy(x), e2 = energy(x2);
    if (e2 < e1 || Math.random() < Math.exp((e1 - e2) / T)) {
      x = x2;
      if (e2 < bestE) { bestE = e2; bestX = x.slice(); }
    }
    T *= alpha;
    if (T < 1e-6) break;
  }
  return bestX;
  \<close>
  up to the update of \<open>T\<close>. The second draw is taken only when \<open>e2 < e1\<close> fails.
\<close>

definition sa_step ::
  "(nat \<Rightarrow> real) \<Rightarrow> matrix \<Rightarrow> nat \<Rightarrow> candidate list \<Rightarrow> real \<Rightarrow> real \<Rightarrow> sa_state \<Rightarrow> sa_state" where
  "sa_step rnd Q n candidates budget alpha st =
     (let i = nat \<lfloor>rnd (sa_calls st) * real n\<rfloor>;
          x2 = (sa_x st)[i := 1 - sa_x st ! i];
          e1 = sa_energy Q n candidates budget (sa_x st);
          e2 = sa_energy Q n candidates budget x2;
          st1 = st\<lparr>sa_calls := sa_calls st + 1\<rparr>;
          accept = (e2 < e1 \<or> rnd (sa_calls st1) < exp ((e1 - e2) / sa_T st));
          st2 = (if e2 < e1 then st1 else st1\<lparr>sa_calls := sa_calls st1 + 1\<rparr>);
          st3 = (if accept
                 then (if below_best e2 (sa_bestE st2)
                       then st2\<lparr>sa_x := x2, sa_bestE := Some e2, sa_bestX := x2\<rparr>
                       else st2\<lparr>sa_x := x2\<rparr>)
                 else st2)
      in st3\<lparr>sa_T := sa_T st3 * alpha\<rparr>)"

function sa_loop ::
  "(nat \<Rightarrow> real) \<Rightarrow> matrix \<Rightarrow> nat \<Rightarrow> candidate list \<Rightarrow> real \<Rightarrow> nat \<Rightarrow> real \<Rightarrow> nat \<Rightarrow> sa_state
   \<Rightarrow> int list" where
  "sa_loop rnd Q n candidates budget maxIter alpha iter st =
     (if iter < maxIter
      then let st' = sa_step rnd Q n candidates budget alpha st
           in if sa_T st' < 1 / 1000000 then sa_bestX st'
              else sa_loop rnd Q n candidates budget maxIter alpha (iter + 1) st'
      else sa_bestX st)"
  by pat_completeness auto
termination
  by (relation "measure (\<lambda>(rnd, Q, n, candidates, budget, maxIter, alpha, iter, st). maxIter - iter)")
    auto

definition simulatedAnnealingQUBO ::
  "(nat \<Rightarrow> real) \<Rightarrow> matrix \<Rightarrow> nat \<Rightarrow> candidate list \<Rightarrow> real \<Rightarrow> nat \<Rightarrow> real \<Rightarrow> real \<Rightarrow> int list" where
  "simulatedAnnealingQUBO rnd Q n candidates budget maxIter T0 alpha =
     sa_loop rnd Q n candidates budget maxIter alpha 0
       \<lparr>sa_x = replicate n 0, sa_bestX = replicate n 0, sa_bestE = None, sa_T = T0, sa_calls = 0\<rparr>"

text \<open>The defaults of the signature: \<open>maxIter = 10000\<close>, \<open>T0 = 20\<close>, \<open>alpha = 0.999\<close>.\<close>

definition annealing_default ::
  "(nat \<Rightarrow> real) \<Rightarrow> matrix \<Rightarrow> nat \<Rightarrow> candidate list \<Rightarrow> real \<Rightarrow> int list" where
  "annealing_default rnd Q n candidates budget =
     simulatedAnnealingQUBO rnd Q n candidates budget 10000 20 (999 / 1000)"

text \<open>
  A run of the search: the first two draws are 0 (index 0, then an accepted uphill move),
  every later draw is 1/2 (index 1 of 2, then a rejected move).
\<close>

definition uphill_draws :: "nat \<Rightarrow> real" where
  "uphill_draws k = (if k < 2 then 0 else 1 / 2)"

definition uphill_Q :: matrix where
  "uphill_Q = [[1, 0], [0, 100]]"

definition uphill_candidates :: "candidate list" where
  "uphill_candidates = [mk_candidate 1 1, mk_candidate 1 1]"

definition uphill_inv :: "sa_state \<Rightarrow> bool" where
  "uphill_inv st \<longleftrightarrow>
     sa_x st = [1, 0] \<and> sa_bestX st = [1, 0] \<and> sa_bestE st = Some 1
     \<and> 0 < sa_T st \<and> sa_T st \<le> 20 \<and> 2 \<le> sa_calls st"

section \<open>Reading the output of an external solver\<close>

text \<open>
  The values \<open>JSON.parse\<close> returns. Numbers are integers here (indices). \<open>JSON.parse\<close>
  itself is a parameter \<open>parse\<close>, with \<open>None\<close> for the \<open>SyntaxError\<close> it throws.
\<close>

datatype json =
  JNull
  | JBool bool
  | JNum int
  | JStr string
  | JArr "json list"
  | JObj "(string \<times> json) list"

datatype cause = Process_failed string | Syntax_error | Type_error | No_valid_JSON

datatype js_error = Gurobi_optimization_failed cause | Failed_to_parse_quantum_output cause

text \<open>What \<open>spawnSync\<close> hands back: \<open>result.status\<close>, \<open>result.stdout\<close>, \<open>result.stderr\<close>.\<close>

record proc_result =
  proc_status :: int
  proc_stdout :: string
  proc_stderr :: string

text \<open>\<open>String.prototype.trim\<close> and \<open>split('\n')\<close> on byte strings.\<close>

definition is_space :: "char \<Rightarrow> bool" where
  "is_space c \<longleftrightarrow> c \<in> set [CHR 0x20, CHR 0x09, CHR 0x0A, CHR 0x0B, CHR 0x0C, CHR 0x0D]"

definition trim :: "string \<Rightarrow> string" where
  "trim s = rev (dropWhile is_space (rev (dropWhile is_space s)))"

fun split_lines :: "string \<Rightarrow> string list" where
  "split_lines [] = [[]]"
| "split_lines (c # cs) =
     (if c = CHR 0x0A then [] # split_lines cs
      else (case split_lines cs of
              [] \<Rightarrow> [[c]]
            | l # ls \<Rightarrow> (c # l) # ls))"

text \<open>The decimal digits of an index, for \<open>String.prototype.includes\<close> with a number.\<close>

function decimal :: "nat \<Rightarrow> string" where
  "decimal n =
     (if n < 10 then [char_of (48 + n)]
      else decimal (n div 10) @ [char_of (48 + n mod 10)])"
  by pat_completeness auto
termination
  by (relation "measure (\<lambda>n. n)") auto

text \<open>
  \<^verbatim>\<open>parsed.selected_indices.includes(i)\<close>: a \<open>TypeError\<close> (here \<open>None\<close>) unless \<open>parsed\<close> is an
  object whose \<open>selected_indices\<close> is an array or a string (\<open>includes\<close> is a keyword of
  Isabelle, hence \<open>includes_index\<close>).
\<close>

definition selected_indices :: "json \<Rightarrow> json option" where
  "selected_indices v = (case v of JObj kvs \<Rightarrow> map_of kvs ''selected_indices'' | _ \<Rightarrow> None)"

definition includes_index :: "json \<Rightarrow> nat \<Rightarrow> bool option" where
  "includes_index v i =
     (case v of
        JArr xs \<Rightarrow> Some (JNum (int i) \<in> set xs)
      | JStr s \<Rightarrow> Some (sublist (decimal i) s)
      | _ \<Rightarrow> None)"

text \<open>
  The part of \<open>gurobiQUBOBudget\<close> (and of \<open>saPythonQUBO\<close>, which reads its output the same
  way) after the process has ended:
  \<^verbatim>\<open>
  if (result.status !== 0) throw new Error(result.stderr || 'Gurobi failed');
  const out = result.stdout.trim().split('\n').pop();
  const parsed = JSON.parse(out);
  const x = candidates.map((_, i) => parsed.selected_indices.includes(i) ? 1 : 0);
  return x;
  \<close>
  inside \<^verbatim>\<open>try { ... } catch (e) { throw new Error('Gurobi optimization failed: ' + e.message); }\<close>.
\<close>

definition gurobi_read ::
  "(string \<Rightarrow> json option) \<Rightarrow> proc_result \<Rightarrow> nat \<Rightarrow> cause + int list" where
  "gurobi_read parse result n =
     (if proc_status result \<noteq> 0
      then Inl (Process_failed (if proc_stderr result = [] then ''Gurobi failed'' else proc_stderr result))
      else let out = last (split_lines (trim (proc_stdout result))) in
        (case parse out of
           None \<Rightarrow> Inl Syntax_error
         | Some parsed \<Rightarrow>
             (if n = 0 then Inr []
              else (case selected_indices parsed of
                      None \<Rightarrow> Inl Type_error
                    | Some v \<Rightarrow>
                        (case includes_index v 0 of
                           None \<Rightarrow> Inl Type_error
                         | Some _ \<Rightarrow> Inr (map (\<lambda>i. if includes_index v i = Some True then 1 else 0) [0..<n]))))))"

definition gurobiQUBOBudget ::
  "(string \<Rightarrow> json option) \<Rightarrow> proc_result \<Rightarrow> 'c list \<Rightarrow> js_error + int list" where
  "gurobiQUBOBudget parse result candidates =
     (case gurobi_read parse result (length candidates) of
        Inl c \<Rightarrow> Inl (Gurobi_optimization_failed c)
      | Inr x \<Rightarrow> Inr x)"

text \<open>
  The handler that runs \<open>quantum_optimize.py\<close>, in its \<open>close\<close> callback with exit code 0:
  \<^verbatim>\<open>
  // Defensive: find last valid JSON in output
  const lines = out.trim().split('\n');
  let result = null;
  for (let i = lines.length - 1; i >= 0; i--) {
    try {
      result = JSON.parse(lines[i]);
      break;
    } catch (e) {}
  }
  if (!result) throw new Error('No valid JSON output from quantum_optimize.py');
  result.selected_grids = (result.selected_indices || []).map(i => candidates[i]);
  \<close>
  \<open>scan_back\<close> is the loop, on the lines in reverse order. \<open>quantum_read\<close> gives the array
  whose elements are then mapped to candidates. The module is strict-mode code, so the
  assignment to \<open>result.selected_grids\<close> throws when \<open>result\<close> is a number, a string or
  \<open>true\<close>.
\<close>

fun scan_back :: "(string \<Rightarrow> json option) \<Rightarrow> string list \<Rightarrow> json option" where
  "scan_back parse [] = None"
| "scan_back parse (l # ls) =
     (case parse l of Some v \<Rightarrow> Some v | None \<Rightarrow> scan_back parse ls)"

definition falsy :: "json \<Rightarrow> bool" where
  "falsy v \<longleftrightarrow> v = JNull \<or> v = JBool False \<or> v = JNum 0 \<or> v = JStr []"

definition quantum_read :: "(string \<Rightarrow> json option) \<Rightarrow> string \<Rightarrow> js_error + json list" where
  "quantum_read parse out =
     (case scan_back parse (rev (split_lines (trim out))) of
        None \<Rightarrow> Inl (Failed_to_parse_quantum_output No_valid_JSON)
      | Some result \<Rightarrow>
          (if falsy result then Inl (Failed_to_parse_quantum_output No_valid_JSON)
           else (case result of
                   JObj kvs \<Rightarrow>
                     (case map_of kvs ''selected_indices'' of
                        None \<Rightarrow> Inr []
                      | Some v \<Rightarrow>
                          (if falsy v then Inr []
                           else (case v of
                                   JArr xs \<Rightarrow> Inr xs
                                 | _ \<Rightarrow> Inl (Failed_to_parse_quantum_output Type_error))))
                 | JArr _ \<Rightarrow> Inr []
                 | _ \<Rightarrow> Inl (Failed_to_parse_quantum_output Type_error))))"

text \<open>A solver output with a logging line after the result record.\<close>

definition record_line :: string where
  \<open>record_line = ''{"selected_indices": [0]}''\<close>

definition logged_stdout :: string where
  "logged_stdout = record_line @ [CHR 0x0A] @ ''Optimization finished'' @ [CHR 0x0A]"

definition record_value :: json where
  "record_value = JObj [(''selected_indices'', JArr [JNum 0])]"

definition reads_record :: "(string \<Rightarrow> json option) \<Rightarrow> bool" where
  "reads_record parse \<longleftrightarrow>
     parse record_line = Some record_value \<and> parse ''Optimization finished'' = None"

definition table_parse :: "string \<Rightarrow> json option" where
  "table_parse s = (if s = record_line then Some record_value else None)"

section \<open>The solve handlers\<close>

text \<open>
  \<open>req.body\<close>, with \<open>None\<close> for a field that is missing. \<open>cellSize\<close> is the cell profile
  \<open>{ price, energy }\<close>.
\<close>

record cell =
  price :: real
  cell_energy :: real

record body =
  body_polygon :: "point list option"
  body_budget :: "real option"
  body_gridArea :: "real option"
  body_cellSize :: "cell option"
  body_country :: "string option"
  body_popCenter :: "point option"
  body_quboOnly :: bool
  body_algo :: "string option"
  body_K :: "real option"
  body_M :: "real option"
  body_max_grids :: "real option"
  body_min_population :: "real option"

text \<open>A site of the dataset, and a site with the distance the filter handler attaches.\<close>

record site =
  Site_ID :: string
  Installation_Cost_USD :: real
  Population_Coverage :: real
  Solar_Potential_kWh_m2_day :: real
  Energy_Capacity_kWh_day :: real
  X_coord :: real
  Y_coord :: real

record located_site = site +
  site_dist :: real

record grid = candidate +
  pop :: real

text \<open>
  What the handlers take from outside: the geometry library (\<open>booleanPointInPolygon\<close>,
  \<open>distance\<close>), the generated dataset \<open>ethiopiaSites\<close>, \<open>Math.random\<close>, the squaring
  \<^verbatim>\<open>x ** 2\<close> of the engine, \<open>JSON.parse\<close>, the
  outcome of \<open>spawnSync\<close> on the Gurobi script for the files written, and, in filter mode,
  the solver stage as a whole: the sites carry no \<open>cost\<close> or \<open>energy\<close> field, so what the
  solvers read from them is \<open>undefined\<close> and lies outside the numeric model.
\<close>

record env =
  env_inPolygon :: "real \<times> real \<Rightarrow> (real \<times> real) list \<Rightarrow> bool"
  env_distance :: "real \<times> real \<Rightarrow> real \<times> real \<Rightarrow> real"
  env_sites :: "site list"
  env_random :: "nat \<Rightarrow> real"
  env_square :: "real \<Rightarrow> real"
  env_parse :: "string \<Rightarrow> json option"
  env_spawn :: "matrix \<Rightarrow> real list \<Rightarrow> real \<Rightarrow> proc_result"
  env_site_solver :: "string option \<Rightarrow> matrix \<Rightarrow> located_site list \<Rightarrow> real \<Rightarrow> js_error + int list"

text \<open>
  The responses: 400 \<open>{ error: 'Invalid input' }\<close>, 200 \<open>{ grids }\<close>,
  200 \<open>{ Q, candidates, budget }\<close> and 500 \<open>{ error }\<close>. Next to the response a handler
  returns the stages it went through, in order.
\<close>

datatype ('c, 'g) response =
  Invalid_input
  | Grids "'g list"
  | Qubo matrix "'c list" real
  | Optimization_error js_error

datatype stage = Candidates_generated | Qubo_built | Solver_invoked

text \<open>
  \<^verbatim>\<open>const coords = [...polygon.map(p => [p.lng, p.lat]), [polygon[0].lng, polygon[0].lat]];\<close>
\<close>

definition close_ring :: "point list \<Rightarrow> (real \<times> real) list" where
  "close_ring polygon =
     map (\<lambda>p. (lng p, lat p)) polygon @ [(lng (polygon ! 0), lat (polygon ! 0))]"

text \<open>\<^verbatim>\<open>candidates.filter((c, i) => x[i])\<close>; an index past the end of \<open>x\<close> reads \<open>undefined\<close>.\<close>

definition selected_by :: "int list \<Rightarrow> 'c list \<Rightarrow> 'c list" where
  "selected_by x candidates =
     map snd (filter (\<lambda>(i, c). i < length x \<and> x ! i \<noteq> 0) (zip [0..<length candidates] candidates))"

subsection \<open>Filter mode\<close>

text \<open>
  \<^verbatim>\<open>
  const candidates = ethiopiaSites.filter(site =>
    booleanPointInPolygon([site.X_coord, site.Y_coord], turfPoly)
  ).map(site => ({
    ...site,
    dist: turfDistance([site.X_coord, site.Y_coord], [popCenter.lng, popCenter.lat], ...)
  }));
  \<close>
\<close>

definition filter_candidates :: "env \<Rightarrow> (real \<times> real) list \<Rightarrow> point \<Rightarrow> located_site list" where
  "filter_candidates e coords popCenter =
     map (\<lambda>s. \<lparr>Site_ID = Site_ID s, Installation_Cost_USD = Installation_Cost_USD s,
               Population_Coverage = Population_Coverage s,
               Solar_Potential_kWh_m2_day = Solar_Potential_kWh_m2_day s,
               Energy_Capacity_kWh_day = Energy_Capacity_kWh_day s,
               X_coord = X_coord s, Y_coord = Y_coord s,
               site_dist = env_distance e (X_coord s, Y_coord s) (lng popCenter, lat popCenter)\<rparr>)
       (filter (\<lambda>s. env_inPolygon e (X_coord s, Y_coord s) coords) (env_sites e))"

definition site_grid :: "located_site \<Rightarrow> grid" where
  "site_grid c = \<lparr>lat = Y_coord c, lng = X_coord c, cost = Installation_Cost_USD c,
                  energy = Energy_Capacity_kWh_day c, dist = site_dist c,
                  pop = Population_Coverage c\<rparr>"

text \<open>
  The handler of the filter-mode endpoint. Its first statement is
  \<^verbatim>\<open>
  if (!polygon || polygon.length !== 4 || !budget || budget <= 0 || !popCenter) {
    return res.status(400).json({ error: 'Invalid input' });
  }
  \<close>
  and after the candidates
  \<^verbatim>\<open>
  if (candidates.length === 0) {
    return res.status(200).json({ grids: [] });
  }
  \<close>
\<close>

definition handler_filter :: "env \<Rightarrow> body \<Rightarrow> (located_site, grid) response \<times> stage list" where
  "handler_filter e b =
     (case (body_polygon b, body_budget b, body_popCenter b) of
        (Some polygon, Some budget, Some popCenter) \<Rightarrow>
          if length polygon \<noteq> 4 \<or> budget = 0 \<or> budget \<le> 0 then (Invalid_input, [])
          else
            let coords = close_ring polygon;
                candidates = filter_candidates e coords popCenter
            in if length candidates = 0 then (Grids [], [Candidates_generated])
               else
                 let n = length candidates;
                     C = map Installation_Cost_USD candidates;
                     P = map Population_Coverage candidates;
                     E = map Energy_Capacity_kWh_day candidates;
                     max_grids = (case body_max_grids b of None \<Rightarrow> 10 | Some v \<Rightarrow> v);
                     min_population = (case body_min_population b of None \<Rightarrow> 15000 | Some v \<Rightarrow> v);
                     Q = buildQ_filter (env_square e) (dbl (1 / 10)) (dbl (1 / 10)) (dbl (1 / 1000000)) 2
                           (dbl (1 / 100)) n C P E budget max_grids min_population
                 in if body_quboOnly b
                    then (Qubo (fst (qubo_export Q candidates)) (snd (qubo_export Q candidates)) budget,
                          [Candidates_generated, Qubo_built])
                    else (case env_site_solver e (body_algo b) Q candidates budget of
                            Inl err \<Rightarrow>
                              (Optimization_error err,
                               [Candidates_generated, Qubo_built, Solver_invoked])
                          | Inr x \<Rightarrow>
                              (Grids (map site_grid (selected_by x candidates)),
                               [Candidates_generated, Qubo_built, Solver_invoked]))
      | _ \<Rightarrow> (Invalid_input, []))"

subsection \<open>Mesh mode\<close>

text \<open>
  \<^verbatim>\<open>
  const nCandidates = Math.max(20, Math.floor(budget / cellSize.price) * 5);
  let candidates = [];
  const [minLng, minLat, maxLng, maxLat] = [
    Math.min(...coords.map(c=>c[0])), Math.min(...coords.map(c=>c[1])),
    Math.max(...coords.map(c=>c[0])), Math.max(...coords.map(c=>c[1]))
  ];
  const steps = Math.ceil(Math.sqrt(nCandidates));
  for (let i = 0; i < steps; i++) {
    for (let j = 0; j < steps; j++) {
      const lat = minLat + (maxLat - minLat) * (i + 0.5) / steps;
      const lng = minLng + (maxLng - minLng) * (j + 0.5) / steps;
      if (booleanPointInPolygon([lng, lat], turfPoly)) {
        const dist = turfDistance([lng, lat], [popCenter.lng, popCenter.lat], ...);
        candidates.push({ lat, lng, cost: cellSize.price, energy: cellSize.energy, dist });
      }
    }
  }
  \<close>
  With \<open>cellSize.price = 0\<close>, or a quotient that overflows, \<open>budget / cellSize.price\<close> is
  \<open>Infinity\<close>, so is \<open>steps\<close>, and the loops do not end: the result is \<open>None\<close>. \<open>Math.sqrt\<close>
  returns the rounded square root.
\<close>

definition mesh_candidates ::
  "env \<Rightarrow> (real \<times> real) list \<Rightarrow> real \<Rightarrow> cell \<Rightarrow> point \<Rightarrow> candidate list option" where
  "mesh_candidates e coords budget cellSize popCenter =
     (if price cellSize = 0 \<or> 2 ^ 1024 \<le> fdiv budget (price cellSize) then None
      else
        let nCandidates = max 20 (fmul (real_of_int \<lfloor>fdiv budget (price cellSize)\<rfloor>) 5);
            minLng = Min (set (map fst coords));
            minLat = Min (set (map snd coords));
            maxLng = Max (set (map fst coords));
            maxLat = Max (set (map snd coords));
            steps = nat \<lceil>dbl (sqrt nCandidates)\<rceil>
        in Some (concat (map (\<lambda>i. concat (map (\<lambda>j.
             let la = fadd minLat
                        (fdiv (fmul (fsub maxLat minLat) (fadd (real i) (1 / 2))) (real steps));
                 lo = fadd minLng
                        (fdiv (fmul (fsub maxLng minLng) (fadd (real j) (1 / 2))) (real steps))
             in if env_inPolygon e (lo, la) coords
                then [\<lparr>lat = la, lng = lo, cost = price cellSize, energy = cell_energy cellSize,
                       dist = env_distance e (lo, la) (lng popCenter, lat popCenter)\<rparr>]
                else []) [0..<steps])) [0..<steps])))"

text \<open>
  The dispatch of the mesh handler:
  \<^verbatim>\<open>
  if (algo === 'nar') {
    x = narGreedyBudget(Q, candidates, budget);
  } else if (algo === 'gurobi') {
    x = await gurobiQUBOBudget(Q, candidates, budget);
  } else {
    x = await simulatedAnnealingQUBO(Q, candidates.length, candidates, budget);
  }
  \<close>
\<close>

definition run_solver ::
  "env \<Rightarrow> string option \<Rightarrow> matrix \<Rightarrow> candidate list \<Rightarrow> real \<Rightarrow> js_error + int list" where
  "run_solver e algo Q candidates budget =
     (if algo = Some ''nar'' then Inr (narGreedyBudget Q candidates budget)
      else if algo = Some ''gurobi''
      then gurobiQUBOBudget (env_parse e) (env_spawn e Q (map cost candidates) budget) candidates
      else Inr (annealing_default (env_random e) Q (length candidates) candidates budget))"

text \<open>
  The handler of the mesh-mode endpoint. Its first statement is
  \<^verbatim>\<open>
  if (!polygon || polygon.length !== 4 || !budget || budget <= 0 || gridArea <= 0
      || !cellSize || !country || !popCenter) {
    return res.status(400).json({ error: 'Invalid input' });
  }
  \<close>
  A missing \<open>gridArea\<close> passes (\<open>undefined <= 0\<close> is false). The candidates carry no \<open>pop\<close>
  field, so \<^verbatim>\<open>candidates.map(c => c.pop ?? 1)\<close> is all ones.
\<close>

definition handler_mesh :: "env \<Rightarrow> body \<Rightarrow> ((candidate, candidate) response \<times> stage list) option" where
  "handler_mesh e b =
     (case (body_polygon b, body_budget b, body_cellSize b, body_country b, body_popCenter b) of
        (Some polygon, Some budget, Some cellSize, Some country, Some popCenter) \<Rightarrow>
          if length polygon \<noteq> 4 \<or> budget = 0 \<or> budget \<le> 0
             \<or> (case body_gridArea b of None \<Rightarrow> False | Some gridArea \<Rightarrow> gridArea \<le> 0)
             \<or> country = []
          then Some (Invalid_input, [])
          else
            (case mesh_candidates e (close_ring polygon) budget cellSize popCenter of
               None \<Rightarrow> None
             | Some candidates \<Rightarrow>
                 if length candidates = 0 then Some (Grids [], [Candidates_generated])
                 else
                   let Kmax = (case body_K b of None \<Rightarrow> real_of_int \<lfloor>fdiv budget (price cellSize)\<rfloor>
                               | Some v \<Rightarrow> v);
                       Mmin = (case body_M b of None \<Rightarrow> 0 | Some v \<Rightarrow> v);
                       C = map cost candidates;
                       P = map (\<lambda>c. 1) candidates;
                       n = length candidates;
                       Q = buildQ_mesh (env_square e) 1 1000 1000 1000 n C P budget Kmax Mmin
                   in if body_quboOnly b
                      then Some (Qubo (fst (qubo_export Q candidates)) (snd (qubo_export Q candidates))
                                   budget,
                                 [Candidates_generated, Qubo_built])
                      else (case run_solver e (body_algo b) Q candidates budget of
                              Inl err \<Rightarrow>
                                Some (Optimization_error err,
                                      [Candidates_generated, Qubo_built, Solver_invoked])
                            | Inr x \<Rightarrow>
                                Some (Grids (selected_by x candidates),
                                      [Candidates_generated, Qubo_built, Solver_invoked])))
      | _ \<Rightarrow> Some (Invalid_input, []))"

text \<open>An environment whose region contains no point, and a request that passes validation.\<close>

definition empty_env :: env where
  "empty_env =
     \<lparr>env_inPolygon = (\<lambda>p ring. False), env_distance = (\<lambda>p q. 0), env_sites = [],
      env_random = (\<lambda>k. 0), env_square = sq_rounded, env_parse = (\<lambda>s. None),
      env_spawn = (\<lambda>Q costs budget. \<lparr>proc_status = 1, proc_stdout = [], proc_stderr = []\<rparr>),
      env_site_solver = (\<lambda>algo Q candidates budget. Inr [])\<rparr>"

definition corner :: "real \<Rightarrow> real \<Rightarrow> point" where
  "corner la lo = \<lparr>lat = la, lng = lo\<rparr>"

definition sample_body :: body where
  "sample_body =
     \<lparr>body_polygon = Some [corner 0 0, corner 0 1, corner 1 1, corner 1 0],
      body_budget = Some 100, body_gridArea = Some 1,
      body_cellSize = Some \<lparr>price = 10, cell_energy = 5\<rparr>, body_country = Some ''Ethiopia'',
      body_popCenter = Some (corner 0 0), body_quboOnly = False, body_algo = Some ''nar'',
      body_K = None, body_M = None, body_max_grids = None, body_min_population = None\<rparr>"

section \<open>Evaluating the rounding\<close>

lemma ulp_exp_eq:
  assumes "2 powi p \<le> \<bar>x\<bar>" and "\<bar>x\<bar> < 2 powi (p + 1)"
  shows "ulp_exp x = max (- 1074) (p - 52)"
proof -
  have two: "(0::real) < 2 powi p"
    by simp
  have pos: "0 < \<bar>x\<bar>"
    using assms(1) two by linarith
  have lo: "2 powr (real_of_int p) = (2::real) powi p"
    by (simp add: powr_real_of_int')
  have hi: "2 powr (real_of_int p + 1) = (2::real) powi (p + 1)"
    using powr_real_of_int' [of "2::real" "p + 1"] by simp
  have "2 powr (real_of_int p) \<le> \<bar>x\<bar> \<and> \<bar>x\<bar> < 2 powr (real_of_int p + 1)"
    using assms by (simp only: lo hi)
  then have "\<lfloor>log 2 \<bar>x\<bar>\<rfloor> = p"
    by (subst floor_log_eq_powr_iff [OF pos]) simp_all
  then show ?thesis
    by (simp add: ulp_exp_def)
qed

lemma dbl_eval:
  assumes "2 powi p \<le> \<bar>x\<bar>" and "\<bar>x\<bar> < 2 powi (p + 1)" and "e = max (- 1074) (p - 52)"
  shows "dbl x = of_int (round_even (x / 2 powi e)) * 2 powi e"
proof -
  have two: "(0::real) < 2 powi p"
    by simp
  have "0 < \<bar>x\<bar>"
    using assms(1) two by linarith
  then have "x \<noteq> 0"
    by auto
  then show ?thesis
    by (simp add: dbl_def ulp_exp_eq [OF assms(1,2)] assms(3))
qed

lemma round_even_of_int: "round_even (of_int m) = m"
  by (simp add: round_even_def)

lemma dbl_of_int:
  assumes "\<bar>k\<bar> < 2 ^ 53"
  shows "dbl (of_int k) = of_int k"
proof (cases "k = 0")
  case True
  then show ?thesis by (simp add: dbl_def)
next
  case False
  define L where "L = \<lfloor>log 2 \<bar>real_of_int k\<bar>\<rfloor>"
  have "1 \<le> \<bar>k\<bar>"
    using False by linarith
  then have "real_of_int 1 \<le> real_of_int \<bar>k\<bar>"
    by (simp only: of_int_le_iff)
  then have k1: "1 \<le> \<bar>real_of_int k\<bar>"
    by simp
  have pos: "0 < \<bar>real_of_int k\<bar>"
    using k1 by linarith
  have bounds: "2 powr (real_of_int L) \<le> \<bar>real_of_int k\<bar>" "\<bar>real_of_int k\<bar> < 2 powr (real_of_int L + 1)"
    using floor_log_eq_powr_iff [OF pos, of 2 L] by (simp_all add: L_def)
  have L0: "0 \<le> L"
    unfolding L_def using k1 by (simp add: zero_le_log_cancel_iff)
  have "real_of_int \<bar>k\<bar> < real_of_int (2 ^ 53)"
    using assms by (simp only: of_int_less_iff)
  then have k53: "\<bar>real_of_int k\<bar> < 2 ^ 53"
    by simp
  have "2 powr (real_of_int (53::int)) = (2::real) ^ 53"
    using powr_real_of_int' [of "2::real" 53] by simp
  then have "2 powr (real_of_int L) < 2 powr (real_of_int (53::int))"
    using bounds(1) k53 by linarith
  then have "real_of_int L < real_of_int (53::int)"
    by (subst (asm) powr_less_cancel_iff) simp_all
  then have L52: "L \<le> 52"
    by linarith
  define d where "d = nat (52 - L)"
  have e: "ulp_exp (of_int k) = - int d"
    using L0 L52 by (simp add: ulp_exp_def L_def [symmetric] d_def)
  have "real_of_int k / 2 powi (- int d) = of_int (k * 2 ^ d)"
    by (simp add: power_int_minus field_simps)
  then have "round_even (real_of_int k / 2 powi (- int d)) = k * 2 ^ d"
    by (simp only: round_even_of_int)
  then show ?thesis
    using False by (simp add: dbl_def e power_int_minus field_simps)
qed

section \<open>Properties of narGreedyBudget\<close>

lemma dbl_numeral: "numeral k < (2::int) ^ 53 \<Longrightarrow> dbl (numeral k) = numeral k"
  using dbl_of_int [of "numeral k"] by simp

lemma dbl_one: "dbl 1 = 1"
  using dbl_of_int [of 1] by simp

lemma dbl_zero: "dbl 0 = 0"
  by (simp add: dbl_def)

lemma greedy_loop_acc:
  "greedy_loop cs b is t sel = sel @ greedy_loop cs b is t []"
proof (induction "is" arbitrary: t sel)
  case Nil
  show ?case by simp
next
  case (Cons i rest)
  show ?case
    using Cons.IH [of "fadd t (cost (cs ! i))" "sel @ [i]"] Cons.IH [of "fadd t (cost (cs ! i))" "[i]"]
      Cons.IH [of t sel]
    by simp
qed

lemma greedy_loop_Cons:
  "greedy_loop cs b (i # rest) t [] =
     (if fadd t (cost (cs ! i)) \<le> b then i # greedy_loop cs b rest (fadd t (cost (cs ! i))) []
      else greedy_loop cs b rest t [])"
  using greedy_loop_acc [of cs b rest "fadd t (cost (cs ! i))" "[i]"] by simp

lemma set_greedy_loop: "set (greedy_loop cs b is t []) \<subseteq> set is"
  by (induction "is" arbitrary: t) (auto simp: greedy_loop_Cons simp del: greedy_loop.simps(2))

lemma mset_idxs_of: "mset (idxs_of cs) = mset [0..<length cs]"
  by (simp add: idxs_of_def)

lemma set_idxs_of: "set (idxs_of cs) = {0..<length cs}"
  by (simp add: idxs_of_def)

lemma distinct_idxs_of: "distinct (idxs_of cs)"
  by (simp add: idxs_of_def)

lemma length_idxs_of: "length (idxs_of cs) = length cs"
  by (simp add: idxs_of_def)

lemma nth_narGreedyBudget:
  "i < length cs \<Longrightarrow>
   narGreedyBudget Q cs b ! i = (if i \<in> set (greedy_loop cs b (idxs_of cs) 0 []) then 1 else 0)"
  by (simp add: narGreedyBudget_def)

text \<open>
  The total after a prefix of the rank order, written with the set of selected indices.
\<close>

lemma prefix_total_bound:
  assumes "distinct (pre @ post)" and "t \<le> b"
  shows "fold (\<lambda>i tot. if i \<in> set (greedy_loop cs b (pre @ post) t []) then fadd tot (cost (cs ! i)) else tot)
           pre t \<le> b"
  using assms
proof (induction pre arbitrary: t)
  case Nil
  then show ?case by simp
next
  case (Cons j pre)
  have d: "distinct (pre @ post)" and j: "j \<notin> set (pre @ post)"
    using Cons.prems(1) by simp_all
  have notin: "j \<notin> set (greedy_loop cs b (pre @ post) t' [])" for t'
    using set_greedy_loop [of cs b "pre @ post" t'] j by auto
  show ?case
  proof (cases "fadd t (cost (cs ! j)) \<le> b")
    case True
    let ?t = "fadd t (cost (cs ! j))"
    let ?S = "set (greedy_loop cs b (pre @ post) ?t [])"
    have loop: "greedy_loop cs b ((j # pre) @ post) t [] = j # greedy_loop cs b (pre @ post) ?t []"
      using True by (simp add: greedy_loop_Cons del: greedy_loop.simps(2))
    have "fold (\<lambda>i tot. if i \<in> set (j # greedy_loop cs b (pre @ post) ?t []) then fadd tot (cost (cs ! i)) else tot) pre ?t
        = fold (\<lambda>i tot. if i \<in> ?S then fadd tot (cost (cs ! i)) else tot) pre ?t"
      using j by (intro fold_cong) auto
    then show ?thesis
      unfolding loop using Cons.IH [OF d True] by simp
  next
    case False
    have loop: "greedy_loop cs b ((j # pre) @ post) t [] = greedy_loop cs b (pre @ post) t []"
      using False by (simp add: greedy_loop_Cons del: greedy_loop.simps(2))
    show ?thesis
      unfolding loop using Cons.IH [OF d Cons.prems(2)] notin [of t] by simp
  qed
qed

lemma loop_accept_iff:
  assumes "distinct (pre @ i # post)"
  shows "i \<in> set (greedy_loop cs b (pre @ i # post) t []) \<longleftrightarrow>
         fadd (fold (\<lambda>i' tot. if i' \<in> set (greedy_loop cs b (pre @ i # post) t [])
                               then fadd tot (cost (cs ! i')) else tot) pre t)
              (cost (cs ! i)) \<le> b"
  using assms
proof (induction pre arbitrary: t)
  case Nil
  have "i \<notin> set (greedy_loop cs b post t' [])" for t'
    using set_greedy_loop [of cs b post t'] Nil by auto
  then show ?case
    by (simp add: greedy_loop_Cons del: greedy_loop.simps(2))
next
  case (Cons j pre)
  let ?rest = "pre @ i # post"
  have d: "distinct ?rest" and j: "j \<notin> set ?rest"
    using Cons.prems by simp_all
  have ij: "i \<noteq> j"
    using j by auto
  have notin: "j \<notin> set (greedy_loop cs b ?rest t' [])" for t'
    using set_greedy_loop [of cs b ?rest t'] j by auto
  show ?case
  proof (cases "fadd t (cost (cs ! j)) \<le> b")
    case True
    let ?t = "fadd t (cost (cs ! j))"
    let ?S = "set (greedy_loop cs b ?rest ?t [])"
    have loop: "greedy_loop cs b ((j # pre) @ i # post) t [] = j # greedy_loop cs b ?rest ?t []"
      using True by (simp add: greedy_loop_Cons del: greedy_loop.simps(2))
    have "fold (\<lambda>i' tot. if i' \<in> set (j # greedy_loop cs b ?rest ?t []) then fadd tot (cost (cs ! i')) else tot) pre ?t
        = fold (\<lambda>i' tot. if i' \<in> ?S then fadd tot (cost (cs ! i')) else tot) pre ?t"
      using j by (intro fold_cong) auto
    then show ?thesis
      unfolding loop using Cons.IH [OF d, of ?t] ij by simp
  next
    case False
    have loop: "greedy_loop cs b ((j # pre) @ i # post) t [] = greedy_loop cs b ?rest t []"
      using False by (simp add: greedy_loop_Cons del: greedy_loop.simps(2))
    show ?thesis
      unfolding loop using Cons.IH [OF d, of t] notin [of t] by simp
  qed
qed

lemma running_total_eq:
  "running_total cs (idxs_of cs) (narGreedyBudget Q cs b) k =
     fold (\<lambda>i tot. if i \<in> set (greedy_loop cs b (idxs_of cs) 0 []) then fadd tot (cost (cs ! i)) else tot)
       (take k (idxs_of cs)) 0"
  unfolding running_total_def
proof (rule fold_cong [OF refl refl])
  fix i
  assume "i \<in> set (take k (idxs_of cs))"
  then have "i \<in> set (idxs_of cs)"
    by (rule in_set_takeD)
  then have "i < length cs"
    by (simp add: set_idxs_of)
  then show "(\<lambda>tot. if narGreedyBudget Q cs b ! i = 1 then fadd tot (cost (cs ! i)) else tot) =
             (\<lambda>tot. if i \<in> set (greedy_loop cs b (idxs_of cs) 0 []) then fadd tot (cost (cs ! i)) else tot)"
    by (simp add: nth_narGreedyBudget)
qed

lemma running_total_bound:
  assumes "0 \<le> b"
  shows "running_total cs (idxs_of cs) (narGreedyBudget Q cs b) k \<le> b"
proof -
  have "distinct (take k (idxs_of cs) @ drop k (idxs_of cs))"
    by (simp add: distinct_idxs_of)
  from prefix_total_bound [OF this assms, of cs]
  show ?thesis
    by (simp add: running_total_eq)
qed

lemma greedy_accept_iff:
  assumes "k < length cs"
  shows "(narGreedyBudget Q cs b ! (idxs_of cs ! k) = 1) \<longleftrightarrow>
         fadd (running_total cs (idxs_of cs) (narGreedyBudget Q cs b) k) (cost (cs ! (idxs_of cs ! k))) \<le> b"
proof -
  let ?is = "idxs_of cs"
  have k: "k < length ?is"
    using assms by (simp add: length_idxs_of)
  have split: "?is = take k ?is @ ?is ! k # drop (Suc k) ?is"
    by (rule id_take_nth_drop [OF k])
  have d: "distinct (take k ?is @ ?is ! k # drop (Suc k) ?is)"
    using distinct_idxs_of [of cs] split by simp
  have lt: "?is ! k < length cs"
    using k set_idxs_of [of cs] by (metis atLeastLessThan_iff nth_mem)
  have "?is ! k \<in> set (greedy_loop cs b ?is 0 []) \<longleftrightarrow>
        fadd (fold (\<lambda>i' tot. if i' \<in> set (greedy_loop cs b ?is 0 []) then fadd tot (cost (cs ! i')) else tot)
                (take k ?is) 0) (cost (cs ! (?is ! k))) \<le> b"
    using loop_accept_iff [OF d, of cs b 0] split by simp
  then show ?thesis
    by (simp add: running_total_eq nth_narGreedyBudget [OF lt])
qed

lemma greedy_binary: "i < length cs \<Longrightarrow> narGreedyBudget Q cs b ! i \<in> {0, 1}"
  by (simp add: nth_narGreedyBudget)


lemma ratio_desc:
  assumes "k < l" and "l < length cs"
  shows "ratio cs (idxs_of cs ! l) \<le> ratio cs (idxs_of cs ! k)"
proof -
  have "sorted (map (\<lambda>i. - ratio cs i) (idxs_of cs))"
    unfolding idxs_of_def by (rule sorted_sort_key)
  then have "map (\<lambda>i. - ratio cs i) (idxs_of cs) ! k \<le> map (\<lambda>i. - ratio cs i) (idxs_of cs) ! l"
    using assms by (intro sorted_nth_mono) (simp_all add: length_idxs_of)
  then show ?thesis
    using assms by (simp add: length_idxs_of)
qed

lemma sorted_wrt_filter_nth:
  assumes "sorted_wrt R (filter P xs)" and "k < l" and "l < length xs"
    and "P (xs ! k)" and "P (xs ! l)"
  shows "R (xs ! k) (xs ! l)"
proof -
  have k: "k < length xs" using assms by simp
  have xs: "xs = take k xs @ xs ! k # drop (Suc k) xs"
    by (rule id_take_nth_drop [OF k])
  have "xs ! l = drop (Suc k) xs ! (l - Suc k)"
    using assms by simp
  moreover have "l - Suc k < length (drop (Suc k) xs)"
    using assms by simp
  ultimately have mem: "xs ! l \<in> set (drop (Suc k) xs)"
    by (metis nth_mem)
  have "filter P xs = filter P (take k xs) @ filter P (xs ! k # drop (Suc k) xs)"
    using arg_cong [OF xs, of "filter P"] by (simp only: filter_append)
  then have "sorted_wrt R (filter P (take k xs) @ xs ! k # filter P (drop (Suc k) xs))"
    using assms(1,4) by simp
  then have "\<forall>y\<in>set (filter P (drop (Suc k) xs)). R (xs ! k) y"
    by (simp add: sorted_wrt_append)
  then show ?thesis
    using mem assms(5) by simp
qed

lemma ties_keep_order:
  assumes "k < l" and "l < length cs"
    and "ratio cs (idxs_of cs ! k) = ratio cs (idxs_of cs ! l)"
  shows "idxs_of cs ! k < idxs_of cs ! l"
proof -
  define key where "key = - ratio cs (idxs_of cs ! k)"
  define P where "P = (\<lambda>y. - ratio cs y = key)"
  have stable: "filter P (idxs_of cs) = filter P [0..<length cs]"
    unfolding idxs_of_def P_def by (rule sort_key_stable)
  have "sorted_wrt (<) [0..<length cs]"
    by simp
  then have "sorted_wrt (<) (filter P [0..<length cs])"
    by (rule sorted_wrt_filter)
  then have srt: "sorted_wrt (<) (filter P (idxs_of cs))"
    by (simp only: stable)
  have l': "l < length (idxs_of cs)"
    using assms(2) by (simp only: length_idxs_of)
  have Pk: "P (idxs_of cs ! k)"
    by (simp add: P_def key_def)
  have Pl: "P (idxs_of cs ! l)"
    using assms(3) by (simp add: P_def key_def)
  show ?thesis
    by (rule sorted_wrt_filter_nth [OF srt assms(1) l' Pk Pl])
qed


lemma dbl_half: "dbl (1 / 2) = 1 / 2"
  by (subst dbl_eval [where p = "- 1" and e = "- 53"]) (simp_all add: round_even_def)

lemma dbl_two_fifths: "dbl (2 / 5) = 3602879701896397 / 9007199254740992"
  by (subst dbl_eval [where p = "- 2" and e = "- 54"]) (simp_all add: round_even_def)

lemma scenario_B_idxs: "idxs_of scenario_B = [0, 1, 2]"
  by (simp add: scenario_B_def idxs_of_def ratio_def fdiv_def mk_candidate_def upt_rec
      dbl_half dbl_two_fifths)

lemma scenario_B_result: "narGreedyBudget Q scenario_B 25 = [1, 0, 1]"
  by (simp add: narGreedyBudget_def scenario_B_idxs)
    (simp add: scenario_B_def mk_candidate_def fadd_def dbl_numeral upt_rec)

lemma scenario_B_cost: "selection_cost scenario_B [1, 0, 1] = 25"
  by (simp add: scenario_B_def selection_cost_def mk_candidate_def upt_rec)


lemma dbl_tenth: "dbl (1 / 10) = 3602879701896397 / 36028797018963968"
  by (subst dbl_eval [where p = "- 4" and e = "- 56"]) (simp_all add: round_even_def)

lemma dbl_fifth: "dbl (1 / 5) = 3602879701896397 / 18014398509481984"
  by (subst dbl_eval [where p = "- 3" and e = "- 55"]) (simp_all add: round_even_def)

lemma dbl_three_tenths: "dbl (3 / 10) = 5404319552844595 / 18014398509481984"
  by (subst dbl_eval [where p = "- 2" and e = "- 54"]) (simp_all add: round_even_def)

lemma dbl_six_fifths: "dbl (6 / 5) = 5404319552844595 / 4503599627370496"
  by (subst dbl_eval [where p = 0 and e = "- 52"]) (simp_all add: round_even_def)

lemma dbl_three_fifths: "dbl (3 / 5) = 5404319552844595 / 9007199254740992"
  by (subst dbl_eval [where p = "- 1" and e = "- 53"]) (simp_all add: round_even_def)

text \<open>The three sums of the loop on \<open>tenths\<close>: \<open>0 + 0.3\<close>, \<open>0.3 + 0.2\<close> and \<open>0.5 + 0.1\<close>.\<close>

lemma dbl_sum_1: "dbl (5404319552844595 / 18014398509481984) = 5404319552844595 / 18014398509481984"
  by (subst dbl_eval [where p = "- 2" and e = "- 54"]) (simp_all add: round_even_def)

lemma dbl_sum_3:
  "dbl (21617278211378381 / 36028797018963968) = 5404319552844595 / 9007199254740992"
  by (subst dbl_eval [where p = "- 1" and e = "- 53"]) (simp_all add: round_even_def)

lemma tenths_values:
  "tenths = [mk_candidate (3602879701896397 / 36028797018963968) (3602879701896397 / 36028797018963968),
             mk_candidate (3602879701896397 / 18014398509481984) (3602879701896397 / 9007199254740992),
             mk_candidate (5404319552844595 / 18014398509481984) (5404319552844595 / 4503599627370496)]"
  by (simp add: tenths_def dbl_tenth dbl_fifth dbl_two_fifths dbl_three_tenths dbl_six_fifths)

lemma tenths_idxs: "idxs_of tenths = [2, 1, 0]"
  by (simp add: tenths_values idxs_of_def ratio_def fdiv_def mk_candidate_def upt_rec
      dbl_numeral dbl_one)

lemma tenths_result: "narGreedyBudget Q tenths (dbl (6 / 10)) = [1, 1, 1]"
  by (simp add: narGreedyBudget_def tenths_idxs dbl_three_fifths)
    (simp add: tenths_values mk_candidate_def fadd_def dbl_sum_1 dbl_half dbl_sum_3 upt_rec)

lemma tenths_cost: "selection_cost tenths [1, 1, 1] = 21617278211378381 / 36028797018963968"
  by (simp add: tenths_values selection_cost_def mk_candidate_def upt_rec)

lemma dbl_near_tie_0: "dbl (999999999 / 1000000000) = 9007199245733793 / 9007199254740992"
  by (subst dbl_eval [where p = "- 1" and e = "- 53"]) (simp_all add: round_even_def)

lemma dbl_near_tie_1: "dbl (1000000000 / 1000000001) = 9007199245733793 / 9007199254740992"
  by (subst dbl_eval [where p = "- 1" and e = "- 53"]) (simp_all add: round_even_def)

lemma near_tie_idxs: "idxs_of near_tie = [0, 1]"
  by (simp add: near_tie_def idxs_of_def ratio_def fdiv_def mk_candidate_def upt_rec
      dbl_near_tie_0 dbl_near_tie_1)

lemma near_tie_result: "narGreedyBudget Q near_tie 1000000001 = [1, 0]"
  by (simp add: narGreedyBudget_def near_tie_idxs)
    (simp add: near_tie_def mk_candidate_def fadd_def dbl_numeral upt_rec)


text \<open>The error of one rounding, and the exact cost of the selection.\<close>

lemma round_even_err: "\<bar>of_int (round_even y) - y\<bar> \<le> 1 / 2"
  unfolding round_even_def Let_def by (auto simp: abs_le_iff)

lemma round_even_nonneg: "0 \<le> y \<Longrightarrow> 0 \<le> round_even y"
  unfolding round_even_def Let_def by (auto simp: ) 

lemma dbl_nonneg: "0 \<le> x \<Longrightarrow> 0 \<le> dbl x"
  by (simp add: dbl_def round_even_nonneg)

lemma ulp_exp_le:
  assumes "x \<noteq> 0"
  shows "2 powi ulp_exp x \<le> 2 powi (- 1074) + \<bar>x\<bar> / 2 ^ 52"
proof -
  define L where "L = \<lfloor>log 2 \<bar>x\<bar>\<rfloor>"
  have pos: "0 < \<bar>x\<bar>"
    using assms by simp
  have "2 powr (real_of_int L) \<le> \<bar>x\<bar>"
    using floor_log_eq_powr_iff [OF pos, of 2 L] by (simp add: L_def)
  then have L: "2 powi L \<le> \<bar>x\<bar>"
    by (simp add: powr_real_of_int')
  have "(2::real) powi (L - 52) = 2 powi L / 2 ^ 52"
    by (simp add: power_int_diff)
  then have a: "(2::real) powi (L - 52) \<le> \<bar>x\<bar> / 2 ^ 52"
    using L by (simp add: divide_right_mono)
  have "ulp_exp x = - 1074 \<or> ulp_exp x = L - 52"
    by (auto simp: ulp_exp_def L_def max_def)
  then show ?thesis
  proof
    assume "ulp_exp x = - 1074"
    then show ?thesis by simp
  next
    assume e: "ulp_exp x = L - 52"
    have "(0::real) \<le> 2 powi (- 1074)" by simp
    then show ?thesis unfolding e using a by linarith
  qed
qed

lemma dbl_err: "\<bar>dbl x - x\<bar> \<le> 2 powi (- 1075) + \<bar>x\<bar> / 2 ^ 53"
proof (cases "x = 0")
  case True
  then show ?thesis by (simp add: dbl_def)
next
  case False
  define s :: real where "s = 2 powi ulp_exp x"
  have s: "0 < s" by (simp add: s_def)
  have "dbl x - x = (of_int (round_even (x / s)) - x / s) * s"
    using False s by (simp add: dbl_def s_def field_simps)
  then have "\<bar>dbl x - x\<bar> = \<bar>of_int (round_even (x / s)) - x / s\<bar> * s"
    using s by (simp add: abs_mult)
  also have "\<dots> \<le> (1 / 2) * s"
    using round_even_err [of "x / s"] s by (intro mult_right_mono) simp_all
  also have "\<dots> \<le> (1 / 2) * (2 powi (- 1074) + \<bar>x\<bar> / 2 ^ 52)"
    using ulp_exp_le [OF False] by (simp add: s_def)
  also have "\<dots> = 2 powi (- 1075) + \<bar>x\<bar> / 2 ^ 53"
    by (simp add: power_int_minus)
  finally show ?thesis .
qed

lemma rounding_slack_nonneg: "0 \<le> b \<Longrightarrow> 0 \<le> rounding_slack b"
  by (simp add: rounding_slack_def)

lemma accepted_step_err:
  assumes "0 \<le> x" and "dbl x \<le> b"
  shows "x \<le> dbl x + rounding_slack b"
proof -
  define h :: real where "h = 2 powi (- 1075)"
  define N :: real where "N = 2 ^ 53"
  have N: "1 < N"
    by (simp add: N_def)
  have slack: "rounding_slack b = h + (b + h) / (N - 1)"
    by (simp add: rounding_slack_def h_def N_def)
  have "\<bar>dbl x - x\<bar> \<le> h + \<bar>x\<bar> / N"
    unfolding h_def N_def by (rule dbl_err)
  then have e: "x - dbl x \<le> h + x / N"
    using assms(1) by (simp add: abs_le_iff)
  then have "x - x / N \<le> b + h"
    using assms(2) by linarith
  moreover have "x - x / N = x * (N - 1) / N"
    using N by (simp add: field_simps)
  ultimately have "x * (N - 1) / N \<le> b + h"
    by simp
  then have "x * (N - 1) \<le> (b + h) * N"
    using N by (simp add: pos_divide_le_eq)
  then have "x \<le> (b + h) * N / (N - 1)"
    using N by (simp add: pos_le_divide_eq)
  then have "x / N \<le> (b + h) * N / (N - 1) / N"
    using N by (intro divide_right_mono) simp_all
  then have "x / N \<le> (b + h) / (N - 1)"
    using N by simp
  then show ?thesis
    unfolding slack using e by linarith
qed

lemma distinct_greedy_loop: "distinct is \<Longrightarrow> distinct (greedy_loop cs b is t [])"
proof (induction "is" arbitrary: t)
  case Nil
  show ?case by simp
next
  case (Cons i rest)
  have "i \<notin> set (greedy_loop cs b rest t' [])" for t'
    using set_greedy_loop [of cs b rest t'] Cons.prems by auto
  then show ?case
    using Cons by (simp add: greedy_loop_Cons del: greedy_loop.simps(2))
qed

lemma greedy_loop_exact_bound:
  assumes "0 \<le> t" and "t \<le> b" and "\<forall>i\<in>set is. 0 \<le> cost (cs ! i)"
  shows "t + (\<Sum>i\<leftarrow>greedy_loop cs b is t []. cost (cs ! i))
         \<le> b + real (length (greedy_loop cs b is t [])) * rounding_slack b"
  using assms
proof (induction "is" arbitrary: t)
  case Nil
  then show ?case by simp
next
  case (Cons i rest)
  have c: "0 \<le> cost (cs ! i)" and rest: "\<forall>i\<in>set rest. 0 \<le> cost (cs ! i)"
    using Cons.prems(3) by simp_all
  show ?case
  proof (cases "fadd t (cost (cs ! i)) \<le> b")
    case True
    let ?t = "fadd t (cost (cs ! i))"
    have x: "0 \<le> t + cost (cs ! i)"
      using Cons.prems(1) c by simp
    have t0: "0 \<le> ?t"
      unfolding fadd_def by (rule dbl_nonneg [OF x])
    have "t + cost (cs ! i) \<le> ?t + rounding_slack b"
      using accepted_step_err [OF x] True by (simp add: fadd_def)
    moreover have "?t + (\<Sum>i\<leftarrow>greedy_loop cs b rest ?t []. cost (cs ! i))
         \<le> b + real (length (greedy_loop cs b rest ?t [])) * rounding_slack b"
      by (rule Cons.IH [OF t0 True rest])
    ultimately show ?thesis
      using True by (simp add: greedy_loop_Cons algebra_simps del: greedy_loop.simps(2))
  next
    case False
    then show ?thesis
      using Cons.IH [OF Cons.prems(1,2) rest]
      by (simp add: greedy_loop_Cons del: greedy_loop.simps(2))
  qed
qed

lemma selection_cost_greedy:
  "selection_cost cs (narGreedyBudget Q cs b) =
     (\<Sum>i\<leftarrow>greedy_loop cs b (idxs_of cs) 0 []. cost (cs ! i))"
proof -
  let ?sel = "greedy_loop cs b (idxs_of cs) 0 []"
  have sub: "set ?sel \<subseteq> {0..<length cs}"
    using set_greedy_loop [of cs b "idxs_of cs" 0] by (simp add: set_idxs_of)
  have dist: "distinct ?sel"
    by (rule distinct_greedy_loop [OF distinct_idxs_of])
  have "selection_cost cs (narGreedyBudget Q cs b) =
        (\<Sum>i\<leftarrow>[0..<length cs]. if i \<in> set ?sel then cost (cs ! i) else 0)"
    unfolding selection_cost_def
    by (rule arg_cong [where f = sum_list], rule map_cong) (simp_all add: nth_narGreedyBudget)
  also have "\<dots> = (\<Sum>i\<in>{0..<length cs}. if i \<in> set ?sel then cost (cs ! i) else 0)"
    by (simp add: interv_sum_list_conv_sum_set_nat)
  also have "\<dots> = (\<Sum>i\<in>set ?sel. cost (cs ! i))"
    using sub by (simp add: sum.inter_restrict [symmetric] Int_absorb1)
  also have "\<dots> = (\<Sum>i\<leftarrow>?sel. cost (cs ! i))"
    using dist by (simp add: sum_list_distinct_conv_sum_set)
  finally show ?thesis .
qed

lemma length_greedy_loop: "length (greedy_loop cs b is t []) \<le> length is"
  by (induction "is" arbitrary: t)
    (auto simp: greedy_loop_Cons le_SucI simp del: greedy_loop.simps(2))

lemma selection_cost_bound:
  assumes "\<forall>c\<in>set cs. 0 < cost c" and "0 < b"
  shows "selection_cost cs (narGreedyBudget Q cs b) \<le> b + real (length cs) * rounding_slack b"
proof -
  let ?sel = "greedy_loop cs b (idxs_of cs) 0 []"
  have pos: "\<forall>i\<in>set (idxs_of cs). 0 \<le> cost (cs ! i)"
    using assms(1) by (auto simp: set_idxs_of intro: less_imp_le)
  have b: "0 \<le> b"
    using assms(2) by simp
  have "0 + (\<Sum>i\<leftarrow>?sel. cost (cs ! i)) \<le> b + real (length ?sel) * rounding_slack b"
    by (rule greedy_loop_exact_bound [OF order_refl b pos])
  moreover have "real (length ?sel) * rounding_slack b \<le> real (length cs) * rounding_slack b"
    using length_greedy_loop [of cs b "idxs_of cs" 0] rounding_slack_nonneg [OF b]
    by (intro mult_right_mono) (simp_all add: length_idxs_of)
  ultimately show ?thesis
    by (simp add: selection_cost_greedy)
qed

text \<open>
  Claim C2 says that the total cost of the selected candidates is at most the budget. The
  loop compares the rounded sum \<open>total + cost\<close> with the budget, and the exact total can be
  larger: for costs \<open>0.1\<close>, \<open>0.2\<close>, \<open>0.3\<close>, energies \<open>0.1\<close>, \<open>0.4\<close>, \<open>1.2\<close> and budget \<open>0.6\<close> the
  rank order is 2, 1, 0, the sums are \<open>0.3\<close>, \<open>0.5\<close> and \<open>0.6\<close>, all three candidates are
  selected, and the three costs add up to more than the double \<open>0.6\<close>.
\<close>

theorem greedy_exact_cost_exceeds_budget:
  "0 < cost (tenths ! 0) \<and> 0 < cost (tenths ! 1) \<and> 0 < cost (tenths ! 2) \<and> 0 < dbl (6 / 10)
   \<and> narGreedyBudget [] tenths (dbl (6 / 10)) = [1, 1, 1]
   \<and> dbl (6 / 10) < selection_cost tenths (narGreedyBudget [] tenths (dbl (6 / 10)))"
proof -
  have r: "narGreedyBudget [] tenths (dbl (6 / 10)) = [1, 1, 1]"
    by (rule tenths_result)
  have c: "0 < cost (tenths ! 0) \<and> 0 < cost (tenths ! 1) \<and> 0 < cost (tenths ! 2)"
    by (simp add: tenths_values mk_candidate_def)
  have b: "0 < dbl (6 / 10)"
    by (simp add: dbl_three_fifths)
  have "dbl (6 / 10) < selection_cost tenths [1, 1, 1]"
    by (simp add: tenths_cost dbl_three_fifths)
  then have "dbl (6 / 10) < selection_cost tenths (narGreedyBudget [] tenths (dbl (6 / 10)))"
    by (simp only: r)
  with r c b show ?thesis
    by (intro conjI) (elim conjE, assumption)+
qed

text \<open>
  Claim C2, amended. When every candidate has a positive cost and the budget is positive,
  the costs of the selected candidates add up to at most the budget plus the rounding
  error of the additions of the loop, which is at most \<open>rounding_slack budget\<close> for each
  candidate; the total the loop accumulates, which is the sum of the selected costs added
  in rank order with every sum rounded to a double, is at most the budget after every
  position of the rank order, the last included; for an empty candidate list the result
  is the empty vector.
\<close>

theorem greedy_within_budget_up_to_rounding:
  assumes "\<forall>c\<in>set candidates. 0 < cost c" and "0 < budget"
  shows "selection_cost candidates (narGreedyBudget Q candidates budget)
           \<le> budget + real (length candidates) * rounding_slack budget
         \<and> (\<forall>k. k \<le> length candidates \<longrightarrow>
            running_total candidates (idxs_of candidates) (narGreedyBudget Q candidates budget) k
              \<le> budget)
         \<and> running_total candidates (idxs_of candidates) (narGreedyBudget Q candidates budget)
              (length candidates) \<le> budget
         \<and> narGreedyBudget Q [] budget = []"
proof -
  have b: "0 \<le> budget"
    using assms(2) by simp
  have "running_total candidates (idxs_of candidates) (narGreedyBudget Q candidates budget) k
          \<le> budget" for k
    by (rule running_total_bound [OF b])
  then show ?thesis
    using selection_cost_bound [OF assms, of Q] by (simp add: narGreedyBudget_def idxs_of_def)
qed

theorem greedy_within_budget_up_to_rounding_witness:
  "0 < cost (tenths ! 0) \<and> 0 < cost (tenths ! 1) \<and> 0 < cost (tenths ! 2) \<and> 0 < dbl (6 / 10)
   \<and> selection_cost tenths (narGreedyBudget [] tenths (dbl (6 / 10)))
        \<le> dbl (6 / 10) + 3 * rounding_slack (dbl (6 / 10))
   \<and> running_total tenths (idxs_of tenths) (narGreedyBudget [] tenths (dbl (6 / 10))) (length tenths)
        \<le> dbl (6 / 10)"
proof -
  have pos: "\<forall>c\<in>set tenths. 0 < cost c"
    by (simp add: tenths_values mk_candidate_def)
  have b: "0 < dbl (6 / 10)"
    by (simp add: dbl_three_fifths)
  have len: "real (length tenths) = 3"
    by (simp add: tenths_def)
  note t = greedy_within_budget_up_to_rounding [OF pos b, of "[]"]
  have "selection_cost tenths (narGreedyBudget [] tenths (dbl (6 / 10)))
        \<le> dbl (6 / 10) + real (length tenths) * rounding_slack (dbl (6 / 10))"
    using t by (elim conjE)
  moreover have "running_total tenths (idxs_of tenths) (narGreedyBudget [] tenths (dbl (6 / 10))) (length tenths)
        \<le> dbl (6 / 10)"
    using t by (elim conjE)
  ultimately show ?thesis
    using b unfolding len by (simp add: tenths_values mk_candidate_def)
qed

text \<open>
  Claim C3 says that the candidates are considered in descending order of energy/cost. The
  comparator sees the quotients rounded to doubles: for (cost, energy) =
  \<open>(10^9, 999999999)\<close> and \<open>(1000000001, 10^9)\<close> the second quotient is the larger one, both
  round to the same double, the tie keeps the list order, and with budget \<open>1000000001\<close>
  the first candidate is taken and the second no longer fits.
\<close>

theorem greedy_order_not_by_exact_quotient:
  "energy (near_tie ! 0) / cost (near_tie ! 0) < energy (near_tie ! 1) / cost (near_tie ! 1)
   \<and> idxs_of near_tie = [0, 1]
   \<and> narGreedyBudget [] near_tie 1000000001 = [1, 0]"
  by (simp add: near_tie_idxs near_tie_result) (simp add: near_tie_def mk_candidate_def)

text \<open>
  Claim C3, amended. For candidates of nonzero cost whose quotient energy/cost is within
  the range of the doubles, the order in which \<open>narGreedyBudget\<close> considers the candidates is
  a permutation of the indices, descending in the quotient energy/cost rounded to a
  double, and candidates whose rounded quotients are equal keep their list order. The
  candidate at position \<open>k\<close> of that order is selected if and only if the rounded sum of
  the running total (the selected costs before it, added in that order with every sum
  rounded) and its own cost is at most the budget. Every entry of the result is 0 or 1.
  For costs 10, 20, 15, energies 5, 8, 6 and budget 25 the result selects candidates 0 and
  2, of total cost 25.
\<close>

theorem greedy_rank_order_and_acceptance_in_doubles:
  assumes "\<forall>c\<in>set candidates. cost c \<noteq> 0 \<and> \<bar>energy c / cost c\<bar> < 2 ^ 1023"
  shows "mset (idxs_of candidates) = mset [0..<length candidates]
   \<and> (\<forall>k l. k < l \<and> l < length candidates \<longrightarrow>
         fdiv (energy (candidates ! (idxs_of candidates ! l))) (cost (candidates ! (idxs_of candidates ! l)))
         \<le> fdiv (energy (candidates ! (idxs_of candidates ! k))) (cost (candidates ! (idxs_of candidates ! k))))
   \<and> (\<forall>k l. k < l \<and> l < length candidates
          \<and> fdiv (energy (candidates ! (idxs_of candidates ! k))) (cost (candidates ! (idxs_of candidates ! k)))
            = fdiv (energy (candidates ! (idxs_of candidates ! l))) (cost (candidates ! (idxs_of candidates ! l)))
         \<longrightarrow> idxs_of candidates ! k < idxs_of candidates ! l)
   \<and> (\<forall>k. k < length candidates \<longrightarrow>
         (narGreedyBudget Q candidates budget ! (idxs_of candidates ! k) = 1) =
         (fadd (running_total candidates (idxs_of candidates) (narGreedyBudget Q candidates budget) k)
               (cost (candidates ! (idxs_of candidates ! k))) \<le> budget))
   \<and> (\<forall>i. i < length candidates \<longrightarrow> narGreedyBudget Q candidates budget ! i \<in> {0, 1})
   \<and> narGreedyBudget Q scenario_B 25 = [1, 0, 1]
   \<and> selection_cost scenario_B [1, 0, 1] = 25"
proof (intro conjI allI impI)
  show "mset (idxs_of candidates) = mset [0..<length candidates]"
    by (rule mset_idxs_of)
next
  fix k l
  assume "k < l \<and> l < length candidates"
  then show "fdiv (energy (candidates ! (idxs_of candidates ! l))) (cost (candidates ! (idxs_of candidates ! l)))
         \<le> fdiv (energy (candidates ! (idxs_of candidates ! k))) (cost (candidates ! (idxs_of candidates ! k)))"
    using ratio_desc [of k l candidates] by (simp add: ratio_def)
next
  fix k l
  assume "k < l \<and> l < length candidates
          \<and> fdiv (energy (candidates ! (idxs_of candidates ! k))) (cost (candidates ! (idxs_of candidates ! k)))
            = fdiv (energy (candidates ! (idxs_of candidates ! l))) (cost (candidates ! (idxs_of candidates ! l)))"
  then show "idxs_of candidates ! k < idxs_of candidates ! l"
    using ties_keep_order [of k l candidates] by (simp add: ratio_def)
next
  fix k
  assume "k < length candidates"
  then show "(narGreedyBudget Q candidates budget ! (idxs_of candidates ! k) = 1) =
         (fadd (running_total candidates (idxs_of candidates) (narGreedyBudget Q candidates budget) k)
               (cost (candidates ! (idxs_of candidates ! k))) \<le> budget)"
    by (rule greedy_accept_iff)
next
  fix i
  assume "i < length candidates"
  then show "narGreedyBudget Q candidates budget ! i \<in> {0, 1}"
    by (rule greedy_binary)
next
  show "narGreedyBudget Q scenario_B 25 = [1, 0, 1]"
    by (rule scenario_B_result)
next
  show "selection_cost scenario_B [1, 0, 1] = 25"
    by (rule scenario_B_cost)
qed

theorem greedy_rank_order_and_acceptance_in_doubles_witness:
  "cost (scenario_B ! 0) \<noteq> 0 \<and> cost (scenario_B ! 1) \<noteq> 0 \<and> cost (scenario_B ! 2) \<noteq> 0
   \<and> idxs_of scenario_B = [0, 1, 2]
   \<and> fdiv (energy (scenario_B ! 1)) (cost (scenario_B ! 1))
     = fdiv (energy (scenario_B ! 2)) (cost (scenario_B ! 2))
   \<and> narGreedyBudget [] scenario_B 25 ! 0 = 1
   \<and> fadd (running_total scenario_B [0, 1, 2] [1, 0, 1] 1) (cost (scenario_B ! 1)) > 25
   \<and> narGreedyBudget [] scenario_B 25 ! 1 \<noteq> 1
   \<and> fadd (running_total scenario_B [0, 1, 2] [1, 0, 1] 2) (cost (scenario_B ! 2)) \<le> 25
   \<and> narGreedyBudget [] scenario_B 25 ! 2 = 1"
proof -
  have nz: "\<forall>c\<in>set scenario_B. cost c \<noteq> 0 \<and> \<bar>energy c / cost c\<bar> < 2 ^ 1023"
    by (simp add: scenario_B_def mk_candidate_def)
  have len: "length scenario_B = 3"
    by (simp add: scenario_B_def)
  have r: "fdiv (energy (scenario_B ! 1)) (cost (scenario_B ! 1))
         = fdiv (energy (scenario_B ! 2)) (cost (scenario_B ! 2))"
    by (simp add: scenario_B_def fdiv_def mk_candidate_def)
  have c: "cost (scenario_B ! 0) = 10" "cost (scenario_B ! 1) = 20" "cost (scenario_B ! 2) = 15"
    by (simp_all add: scenario_B_def mk_candidate_def)
  have acc: "(narGreedyBudget [] scenario_B 25 ! (idxs_of scenario_B ! k) = 1) =
        (fadd (running_total scenario_B (idxs_of scenario_B) (narGreedyBudget [] scenario_B 25) k)
              (cost (scenario_B ! (idxs_of scenario_B ! k))) \<le> 25)" if "k < 3" for k
  proof -
    have "\<forall>k. k < length scenario_B \<longrightarrow>
        (narGreedyBudget [] scenario_B 25 ! (idxs_of scenario_B ! k) = 1) =
        (fadd (running_total scenario_B (idxs_of scenario_B) (narGreedyBudget [] scenario_B 25) k)
              (cost (scenario_B ! (idxs_of scenario_B ! k))) \<le> 25)"
      using greedy_rank_order_and_acceptance_in_doubles [OF nz, of "[]" 25] by (elim conjE)
    then show ?thesis
      using that by (simp only: len)
  qed
  have "narGreedyBudget [] scenario_B 25 ! 0 = 1"
    by (simp add: scenario_B_result)
  moreover have "(narGreedyBudget [] scenario_B 25 ! 1 = 1) =
      (fadd (running_total scenario_B [0, 1, 2] [1, 0, 1] 1) (cost (scenario_B ! 1)) \<le> 25)"
    using acc [of 1] by (simp add: scenario_B_idxs scenario_B_result)
  moreover have "(narGreedyBudget [] scenario_B 25 ! 2 = 1) =
      (fadd (running_total scenario_B [0, 1, 2] [1, 0, 1] 2) (cost (scenario_B ! 2)) \<le> 25)"
    using acc [of 2] by (simp add: scenario_B_idxs scenario_B_result)
  moreover have "running_total scenario_B [0, 1, 2] [1, 0, 1] 1 = 10"
    by (simp add: running_total_def scenario_B_def mk_candidate_def fadd_def dbl_numeral)
  moreover have "running_total scenario_B [0, 1, 2] [1, 0, 1] 2 = 10"
    by (simp add: running_total_def scenario_B_def mk_candidate_def fadd_def dbl_numeral
        numeral_2_eq_2)
  ultimately show ?thesis
    using r c by (simp add: scenario_B_idxs fadd_def dbl_numeral)
qed

lemma insort_key_agree:
  "f x = g x \<Longrightarrow> \<forall>y\<in>set ys. f y = g y \<Longrightarrow> insort_key f x ys = insort_key g x ys"
  by (induction ys) auto

lemma sort_key_agree:
  "\<forall>x\<in>set xs. f x = (g x :: real) \<Longrightarrow> sort_key f xs = sort_key g xs"
proof (induction xs)
  case Nil
  show ?case by simp
next
  case (Cons x xs)
  then have "sort_key f xs = sort_key g xs" by simp
  moreover have "insort_key f x (sort_key g xs) = insort_key g x (sort_key g xs)"
    using Cons.prems by (intro insort_key_agree) simp_all
  ultimately show ?case by simp
qed

lemma greedy_loop_agree:
  "\<forall>i\<in>set is. cost (cs' ! i) = cost (cs ! i) \<Longrightarrow>
   greedy_loop cs' b is t sel = greedy_loop cs b is t sel"
  by (induction "is" arbitrary: t sel) simp_all

text \<open>
  Claim C10. The result of \<open>narGreedyBudget\<close> is the same for any two matrices; it is the
  same for two candidate lists that agree on costs and energies, whatever else differs.
\<close>

theorem greedy_ignores_matrix:
  "narGreedyBudget Q1 candidates budget = narGreedyBudget Q2 candidates budget
   \<and> (map cost candidates' = map cost candidates \<and> map energy candidates' = map energy candidates
        \<longrightarrow> narGreedyBudget Q1 candidates' budget = narGreedyBudget Q2 candidates budget)"
proof (intro conjI impI)
  show "narGreedyBudget Q1 candidates budget = narGreedyBudget Q2 candidates budget"
    by (simp add: narGreedyBudget_def)
next
  assume eq: "map cost candidates' = map cost candidates \<and> map energy candidates' = map energy candidates"
  then have len: "length candidates' = length candidates"
    by (metis length_map)
  have c: "cost (candidates' ! i) = cost (candidates ! i)" if "i < length candidates" for i
    using eq that len by (metis nth_map)
  have e: "energy (candidates' ! i) = energy (candidates ! i)" if "i < length candidates" for i
    using eq that len by (metis nth_map)
  have idxs: "idxs_of candidates' = idxs_of candidates"
    unfolding idxs_of_def len
    by (rule sort_key_agree) (simp add: ratio_def c e)
  have "greedy_loop candidates' budget (idxs_of candidates) 0 [] =
        greedy_loop candidates budget (idxs_of candidates) 0 []"
    by (rule greedy_loop_agree) (simp add: set_idxs_of c)
  then show "narGreedyBudget Q1 candidates' budget = narGreedyBudget Q2 candidates budget"
    by (simp add: narGreedyBudget_def idxs len)
qed

theorem greedy_ignores_matrix_witness:
  "map cost [mk_candidate 10 5\<lparr>dist := 3\<rparr>] = map cost [mk_candidate 10 5]
   \<and> map energy [mk_candidate 10 5\<lparr>dist := 3\<rparr>] = map energy [mk_candidate 10 5]
   \<and> narGreedyBudget [[1]] [mk_candidate 10 5\<lparr>dist := 3\<rparr>] 25 = narGreedyBudget [[2]] [mk_candidate 10 5] 25"
  using greedy_ignores_matrix [of "[[1]]" "[mk_candidate 10 5]" 25 "[[2]]" "[mk_candidate 10 5\<lparr>dist := 3\<rparr>]"]
  by (simp add: mk_candidate_def)

section \<open>Properties of the downsampling\<close>

lemma step_of_div: "step_of n = (n + 999) div 1000"
proof -
  have "\<lceil>real n / real maxCandidates\<rceil> = \<lceil>of_int (int n) / of_int 1000 :: real\<rceil>"
    by (simp add: maxCandidates_def)
  also have "\<dots> = - (- int n div 1000)"
    by (rule ceiling_divide_eq_div)
  also have "\<dots> = (int n + 999) div 1000"
    by linarith
  finally show ?thesis
    unfolding step_of_def by (simp add: nat_div_distrib nat_add_distrib)
qed

lemma mult_less_iff_less_ceil_div:
  assumes "0 < (k::nat)"
  shows "i * k < n \<longleftrightarrow> i < (n + k - 1) div k"
proof -
  have "i < (n + k - 1) div k \<longleftrightarrow> Suc i \<le> (n + k - 1) div k"
    by auto
  also have "\<dots> \<longleftrightarrow> Suc i * k \<le> n + k - 1"
    using assms by (simp only: less_eq_div_iff_mult_less_eq)
  also have "\<dots> \<longleftrightarrow> i * k < n"
    using assms by auto
  finally show ?thesis by simp
qed

lemma filter_multiples:
  assumes "0 < (k::nat)"
  shows "filter (\<lambda>i. i mod k = 0) [0..<n] = map (\<lambda>i. i * k) [0..<(n + k - 1) div k]"
proof (rule sorted_distinct_set_unique)
  show "sorted (filter (\<lambda>i. i mod k = 0) [0..<n])"
    by (rule sorted_wrt_filter) simp
  show "distinct (filter (\<lambda>i. i mod k = 0) [0..<n])"
    by simp
  show "sorted (map (\<lambda>i. i * k) [0..<(n + k - 1) div k])"
    by (simp add: sorted_map sorted_wrt_iff_nth_less)
  show "distinct (map (\<lambda>i. i * k) [0..<(n + k - 1) div k])"
    using assms by (simp add: distinct_map inj_on_def)
  show "set (filter (\<lambda>i. i mod k = 0) [0..<n]) = set (map (\<lambda>i. i * k) [0..<(n + k - 1) div k])"
  proof (intro equalityI subsetI)
    fix x
    assume "x \<in> set (filter (\<lambda>i. i mod k = 0) [0..<n])"
    then have x: "x < n" "x mod k = 0" by simp_all
    then have eq: "x = (x div k) * k" by auto
    with x(1) have "(x div k) * k < n" by simp
    then have "x div k < (n + k - 1) div k"
      using assms by (simp only: mult_less_iff_less_ceil_div)
    with eq show "x \<in> set (map (\<lambda>i. i * k) [0..<(n + k - 1) div k])"
      by (metis (no_types, lifting) atLeastLessThan_iff image_eqI le0 set_map set_upt)
  next
    fix x
    assume "x \<in> set (map (\<lambda>i. i * k) [0..<(n + k - 1) div k])"
    then have "x \<in> (\<lambda>i. i * k) ` {0..<(n + k - 1) div k}"
      by (simp only: set_map set_upt)
    then obtain i where "x = i * k" "i \<in> {0..<(n + k - 1) div k}"
      by (rule imageE)
    then have i: "x = i * k" "i < (n + k - 1) div k" by simp_all
    then have "i * k < n"
      using assms by (simp only: mult_less_iff_less_ceil_div)
    with i show "x \<in> set (filter (\<lambda>i. i mod k = 0) [0..<n])" by simp
  qed
qed


lemma step_pos: "1000 < n \<Longrightarrow> 0 < step_of n"
  by (simp add: step_of_div)

lemma length_strided: "1000 < n \<Longrightarrow> (n + step_of n - 1) div step_of n \<le> 1000"
proof -
  assume n: "1000 < n"
  let ?k = "step_of n"
  have k: "0 < ?k" using n by (rule step_pos)
  have "n \<le> 1000 * ?k"
    unfolding step_of_div by linarith
  then have "n + ?k - 1 < 1001 * ?k"
    using k by linarith
  then have "(n + ?k - 1) div ?k < 1001"
    using k by (simp only: div_less_iff_less_mult)
  then show ?thesis by simp
qed

lemma reducedCandidates_eq:
  assumes "1000 < length cs"
  shows "reducedCandidates cs =
         map (\<lambda>i. cs ! (i * step_of (length cs)))
           [0..<(length cs + step_of (length cs) - 1) div step_of (length cs)]"
proof -
  let ?k = "step_of (length cs)"
  let ?m = "(length cs + ?k - 1) div ?k"
  have "?m \<le> maxCandidates"
    using length_strided [OF assms] by (simp add: maxCandidates_def)
  then show ?thesis
    unfolding reducedCandidates_def filter_multiples [OF step_pos [OF assms]]
    by (simp add: comp_def)
qed

text \<open>
  Claim C7. For more than 1000 candidates and \<open>k = ceil(n / 1000)\<close>, the reduced list has at
  most 1000 entries, its entry \<open>i\<close> is candidate \<open>i * k\<close>, its indices are exactly the \<open>i\<close>
  with \<open>i * k < n\<close>, and the reduced matrix has \<open>Q'[i][j] = Q[i * k][j * k]\<close> for all its
  indices, where \<open>Q\<close> has \<open>n\<close> rows of \<open>n\<close> entries.
\<close>

theorem downsample_strided:
  assumes "1000 < length candidates"
    and "length Q = length candidates"
    and "\<forall>row\<in>set Q. length row = length candidates"
  shows "step_of (length candidates) = nat \<lceil>real (length candidates) / 1000\<rceil>
    \<and> length (reducedCandidates candidates) \<le> 1000
    \<and> (\<forall>i. i < length (reducedCandidates candidates) \<longleftrightarrow>
            i * step_of (length candidates) < length candidates)
    \<and> (\<forall>i < length (reducedCandidates candidates).
          reducedCandidates candidates ! i = candidates ! (i * step_of (length candidates)))
    \<and> length (reducedQ Q candidates) = length (reducedCandidates candidates)
    \<and> (\<forall>i < length (reducedCandidates candidates).
          length (reducedQ Q candidates ! i) = length (reducedCandidates candidates)
          \<and> (\<forall>j < length (reducedCandidates candidates).
                reducedQ Q candidates ! i ! j =
                Q ! (i * step_of (length candidates)) ! (j * step_of (length candidates))))
    \<and> qubo_export Q candidates = (reducedQ Q candidates, reducedCandidates candidates)"
proof -
  let ?n = "length candidates"
  let ?k = "step_of ?n"
  let ?m = "(?n + ?k - 1) div ?k"
  have k: "0 < ?k" using assms(1) by (rule step_pos)
  have len: "length (reducedCandidates candidates) = ?m"
    by (simp add: reducedCandidates_eq [OF assms(1)])
  have lt: "i * ?k < ?n" if "i < ?m" for i
    using that k by (simp only: mult_less_iff_less_ceil_div)
  have rows: "length (Q ! a) = ?n" if "a < ?n" for a
    using assms(2,3) that by simp
  have 1: "?k = nat \<lceil>real ?n / 1000\<rceil>"
    by (simp add: step_of_def maxCandidates_def)
  have 2: "length (reducedCandidates candidates) \<le> 1000"
    unfolding len by (rule length_strided [OF assms(1)])
  have 3: "\<forall>i. i < length (reducedCandidates candidates) \<longleftrightarrow> i * ?k < ?n"
    unfolding len using k by (simp only: mult_less_iff_less_ceil_div) simp
  have 4: "\<forall>i < length (reducedCandidates candidates).
          reducedCandidates candidates ! i = candidates ! (i * ?k)"
    unfolding len by (simp add: reducedCandidates_eq [OF assms(1)])
  have 5: "length (reducedQ Q candidates) = length (reducedCandidates candidates)"
    by (simp add: reducedQ_def Let_def)
  have 6: "\<forall>i < length (reducedCandidates candidates).
          length (reducedQ Q candidates ! i) = length (reducedCandidates candidates)
          \<and> (\<forall>j < length (reducedCandidates candidates).
                reducedQ Q candidates ! i ! j = Q ! (i * ?k) ! (j * ?k))"
    unfolding len
    by (simp add: reducedQ_def Let_def len Q_at_def lt rows assms(2))
  have 7: "qubo_export Q candidates = (reducedQ Q candidates, reducedCandidates candidates)"
    using assms(1) by (simp add: qubo_export_def maxCandidates_def)
  from 1 2 3 4 5 6 7 show ?thesis
    by (intro conjI)
qed

theorem downsample_strided_witness:
  "(1000::nat) < length (replicate 2001 (0::nat))
   \<and> length (replicate 2001 (replicate 2001 (1::real))) = length (replicate 2001 (0::nat))
   \<and> step_of 2001 = 3
   \<and> length (reducedCandidates (replicate 2001 (0::nat))) = 667
   \<and> reducedQ (replicate 2001 (replicate 2001 1)) (replicate 2001 (0::nat)) ! 666 ! 5 = 1"
proof -
  let ?cs = "replicate 2001 (0::nat)"
  let ?Q = "replicate 2001 (replicate 2001 (1::real))"
  have h1: "1000 < length ?cs" by simp
  have h2: "length ?Q = length ?cs" by simp
  have h3: "\<forall>row\<in>set ?Q. length row = length ?cs" by simp
  note t = downsample_strided [OF h1 h2 h3]
  have k: "step_of 2001 = 3"
    by (simp add: step_of_div)
  have iff: "\<forall>i. i < length (reducedCandidates ?cs) \<longleftrightarrow> i * step_of (length ?cs) < length ?cs"
    using t by (elim conjE)
  have "666 < length (reducedCandidates ?cs)" "\<not> 667 < length (reducedCandidates ?cs)"
    using iff by (simp_all add: k)
  then have len: "length (reducedCandidates ?cs) = 667"
    by linarith
  have "\<forall>i < length (reducedCandidates ?cs).
          length (reducedQ ?Q ?cs ! i) = length (reducedCandidates ?cs)
          \<and> (\<forall>j < length (reducedCandidates ?cs).
                reducedQ ?Q ?cs ! i ! j = ?Q ! (i * step_of (length ?cs)) ! (j * step_of (length ?cs)))"
    using t by (elim conjE)
  then have "reducedQ ?Q ?cs ! 666 ! 5 = ?Q ! (666 * 3) ! (5 * 3)"
    unfolding len by (simp add: k)
  then show ?thesis
    using k len by simp
qed

section \<open>Entries of the QUBO matrix off the diagonal\<close>

lemma square_rows: "square n Q \<Longrightarrow> a < n \<Longrightarrow> length (Q ! a) = n"
  by (simp add: square_def list_all_length)

lemma square_zero_matrix: "square n (zero_matrix n)"
  by (simp add: square_def zero_matrix_def list_all_length)

lemma zero_matrix_nth: "a < n \<Longrightarrow> b < n \<Longrightarrow> zero_matrix n ! a ! b = 0"
  by (simp add: zero_matrix_def)

lemma square_apply_at:
  assumes "square n Q"
  shows "square n (apply_at Q i j h)"
proof -
  have len: "length Q = n" and rows: "\<And>a. a < n \<Longrightarrow> length (Q ! a) = n"
    using assms by (simp_all add: square_def list_all_length)
  have "length (apply_at Q i j h ! a) = n" if "a < n" for a
  proof (cases "a = i")
    case True
    then show ?thesis using that len rows [of i] by (simp add: apply_at_def)
  next
    case False
    then show ?thesis using that rows [of a] by (simp add: apply_at_def)
  qed
  then show ?thesis
    using len by (simp add: square_def list_all_length apply_at_def)
qed

lemma apply_at_nth:
  assumes "square n Q" and "a < n" and "b < n"
  shows "apply_at Q i j h ! a ! b = (if a = i \<and> b = j then h (Q ! a ! b) else Q ! a ! b)"
proof -
  have len: "length Q = n" and rows: "\<And>a. a < n \<Longrightarrow> length (Q ! a) = n"
    using assms(1) by (simp_all add: square_def list_all_length)
  show ?thesis
  proof (cases "a = i")
    case True
    then show ?thesis
      using assms(2,3) len rows [of i] by (simp add: apply_at_def nth_list_update)
  next
    case False
    then show ?thesis by (simp add: apply_at_def)
  qed
qed

lemma acts_offI:
  assumes "\<And>Q. square n Q \<Longrightarrow> square n (f Q)"
    and "\<And>Q a b. square n Q \<Longrightarrow> a < n \<Longrightarrow> b < n \<Longrightarrow> a \<noteq> b \<Longrightarrow> f Q ! a ! b = g a b (Q ! a ! b)"
  shows "acts_off n f g"
  using assms by (simp add: acts_off_def)

lemma acts_off_square: "acts_off n f g \<Longrightarrow> square n Q \<Longrightarrow> square n (f Q)"
  by (simp add: acts_off_def)

lemma acts_off_nth:
  "acts_off n f g \<Longrightarrow> square n Q \<Longrightarrow> a < n \<Longrightarrow> b < n \<Longrightarrow> a \<noteq> b \<Longrightarrow>
   f Q ! a ! b = g a b (Q ! a ! b)"
  by (simp add: acts_off_def)

lemma acts_off_apply_at:
  "acts_off n (\<lambda>Q. apply_at Q i j h) (\<lambda>a b q. if a = i \<and> b = j then h q else q)"
  by (rule acts_offI) (simp_all add: square_apply_at apply_at_nth)

lemma acts_off_diag: "acts_off n (\<lambda>Q. apply_at Q i i h) (\<lambda>a b q. q)"
  by (rule acts_offI) (auto simp: square_apply_at apply_at_nth)

lemma acts_off_id: "acts_off n (\<lambda>Q. Q) (\<lambda>a b q. q)"
  by (rule acts_offI) simp_all

lemma acts_off_comp:
  assumes "acts_off n f g" and "acts_off n f' g'"
  shows "acts_off n (\<lambda>Q. f' (f Q)) (\<lambda>a b q. g' a b (g a b q))"
proof (rule acts_offI)
  fix Q assume Q: "square n Q"
  show "square n (f' (f Q))"
    by (intro acts_off_square [OF assms(2)] acts_off_square [OF assms(1)] Q)
  fix a b assume "a < n" "b < n" "a \<noteq> b"
  then show "f' (f Q) ! a ! b = g' a b (g a b (Q ! a ! b))"
    using acts_off_nth [OF assms(2) acts_off_square [OF assms(1) Q], of a b]
      acts_off_nth [OF assms(1) Q, of a b] by simp
qed

lemma acts_off_cong:
  "acts_off n f g \<Longrightarrow> (\<And>a b q. a < n \<Longrightarrow> b < n \<Longrightarrow> a \<noteq> b \<Longrightarrow> g a b q = g' a b q) \<Longrightarrow>
   acts_off n f g'"
  by (simp add: acts_off_def)

lemma acts_off_fold:
  assumes "\<And>i. i < m \<Longrightarrow> acts_off n (f i) (g i)"
  shows "acts_off n (fold f [0..<m]) (\<lambda>a b. fold (\<lambda>i. g i a b) [0..<m])"
  using assms
proof (induction m)
  case 0
  show ?case using acts_off_id by simp
next
  case (Suc m)
  have "acts_off n (fold f [0..<m]) (\<lambda>a b. fold (\<lambda>i. g i a b) [0..<m])"
    using Suc by simp
  from acts_off_comp [OF this Suc.prems [of m]]
  show ?case by (simp add: comp_def)
qed

lemma fold_pick:
  "fold (\<lambda>i q. if R i \<and> i = b then h i q else q) [0..<m] q = (if b < m \<and> R b then h b q else q)"
proof (induction m)
  case 0
  show ?case by simp
next
  case (Suc m)
  show ?case
  proof (cases "b = m")
    case True
    then show ?thesis using Suc by simp
  next
    case False
    then show ?thesis using Suc by auto
  qed
qed


lemma fold_pick1:
  "fold (\<lambda>i q. if i = a then h i q else q) [0..<m] q = (if a < m then h a q else q)"
  using fold_pick [of "\<lambda>i. True" a h m q] by simp

lemma fold_keep: "fold (\<lambda>i q. q) xs q = q"
  by (induction xs) simp_all

lemma acts_off_cross_terms:
  "acts_off n (cross_terms theta mu lambda C P i j)
     (\<lambda>a b q. if (a = i \<and> i \<noteq> j) \<and> j = b
               then fadd (fadd (fadd q (fmul (fmul (fmul 2 theta) (C ! i)) (C ! j))) (fmul 2 mu))
                         (fmul (fmul (fmul 2 lambda) (P ! i)) (P ! j))
               else q)"
proof (cases "i = j")
  case True
  then have "cross_terms theta mu lambda C P i j = (\<lambda>Q. Q)"
    by (simp add: cross_terms_def fun_eq_iff)
  then show ?thesis
    using True acts_off_id [of n] by simp
next
  case False
  let ?F = "\<lambda>Q. apply_at (apply_at (apply_at Q i j
                 (\<lambda>q. fadd q (fmul (fmul (fmul 2 theta) (C ! i)) (C ! j)))) i j
                 (\<lambda>q. fadd q (fmul 2 mu))) i j
                 (\<lambda>q. fadd q (fmul (fmul (fmul 2 lambda) (P ! i)) (P ! j)))"
  note A = acts_off_comp [OF acts_off_comp [OF acts_off_apply_at acts_off_apply_at] acts_off_apply_at,
      of n i j "\<lambda>q. fadd q (fmul (fmul (fmul 2 theta) (C ! i)) (C ! j))" i j
        "\<lambda>q. fadd q (fmul 2 mu)" i j
        "\<lambda>q. fadd q (fmul (fmul (fmul 2 lambda) (P ! i)) (P ! j))"]
  have eq: "cross_terms theta mu lambda C P i j = ?F"
    using False by (simp add: cross_terms_def add_to_def fun_eq_iff)
  show ?thesis
    unfolding eq by (rule acts_off_cong [OF A]) (use False in simp)
qed

lemma acts_off_cross_row:
  "acts_off n (fold (cross_terms theta mu lambda C P i) [0..<n])
     (\<lambda>a b q. if i = a then
                 fadd (fadd (fadd q (fmul (fmul (fmul 2 theta) (C ! a)) (C ! b))) (fmul 2 mu))
                      (fmul (fmul (fmul 2 lambda) (P ! a)) (P ! b))
               else q)"
proof -
  have "acts_off n (fold (cross_terms theta mu lambda C P i) [0..<n])
     (\<lambda>a b. fold (\<lambda>j q. if (a = i \<and> i \<noteq> j) \<and> j = b
               then fadd (fadd (fadd q (fmul (fmul (fmul 2 theta) (C ! i)) (C ! j))) (fmul 2 mu))
                         (fmul (fmul (fmul 2 lambda) (P ! i)) (P ! j))
               else q) [0..<n])"
    by (rule acts_off_fold) (rule acts_off_cross_terms)
  then show ?thesis
  proof (rule acts_off_cong)
    fix a b :: nat and q :: real
    assume "a < n" "b < n" "a \<noteq> b"
    then show "fold (\<lambda>j q. if (a = i \<and> i \<noteq> j) \<and> j = b
               then fadd (fadd (fadd q (fmul (fmul (fmul 2 theta) (C ! i)) (C ! j))) (fmul 2 mu))
                         (fmul (fmul (fmul 2 lambda) (P ! i)) (P ! j))
               else q) [0..<n] q
          = (if i = a then
                 fadd (fadd (fadd q (fmul (fmul (fmul 2 theta) (C ! a)) (C ! b))) (fmul 2 mu))
                      (fmul (fmul (fmul 2 lambda) (P ! a)) (P ! b))
               else q)"
      by (subst fold_pick) auto
  qed
qed

lemma acts_off_diag2:
  assumes "acts_off n f (\<lambda>a b q. q)"
  shows "acts_off n (\<lambda>Q. apply_at (f Q) i i h) (\<lambda>a b q. q)"
  using acts_off_comp [OF assms acts_off_diag [of n i h]] .

lemma acts_off_filter_diag:
  "acts_off n (filter_diag sq alpha gamma theta mu lambda C P E budget max_grids min_population i)
     (\<lambda>a b q. q)"
  unfolding filter_diag_def Let_def add_to_def
  by (rule acts_off_diag2, rule acts_off_diag2, rule acts_off_diag2, rule acts_off_diag)

lemma acts_off_mesh_diag:
  "acts_off n (mesh_diag sq alpha theta mu lambda C P budget Kmax Mmin i) (\<lambda>a b q. q)"
  unfolding mesh_diag_def Let_def add_to_def sub_from_def
  by (rule acts_off_diag2, rule acts_off_diag2, rule acts_off_diag2, rule acts_off_diag2,
      rule acts_off_diag2, rule acts_off_diag2, rule acts_off_diag2, rule acts_off_diag)

lemma acts_off_filter_row:
  "acts_off n (filter_row sq alpha gamma theta mu lambda n C P E budget max_grids min_population i)
     (\<lambda>a b q. if i = a then
                 fadd (fadd (fadd q (fmul (fmul (fmul 2 theta) (C ! a)) (C ! b))) (fmul 2 mu))
                      (fmul (fmul (fmul 2 lambda) (P ! a)) (P ! b))
               else q)"
  unfolding filter_row_def
  by (rule acts_off_comp [OF acts_off_filter_diag acts_off_cross_row])

lemma buildQ_filter_offdiag:
  assumes "a < n" and "b < n" and "a \<noteq> b"
  shows "buildQ_filter sq alpha gamma theta mu lambda n C P E budget max_grids min_population ! a ! b
         = cross_value theta mu lambda C P a b"
proof -
  let ?rows = "fold (filter_row sq alpha gamma theta mu lambda n C P E budget max_grids
                      min_population) [0..<n]"
  have rows: "acts_off n ?rows
     (\<lambda>a b. fold (\<lambda>i q. if i = a then
                 fadd (fadd (fadd q (fmul (fmul (fmul 2 theta) (C ! a)) (C ! b))) (fmul 2 mu))
                      (fmul (fmul (fmul 2 lambda) (P ! a)) (P ! b))
               else q) [0..<n])"
    by (rule acts_off_fold) (rule acts_off_filter_row)
  have sq: "square n (?rows (zero_matrix n))"
    by (rule acts_off_square [OF rows square_zero_matrix])
  have "?rows (zero_matrix n) ! a ! b = cross_value theta mu lambda C P a b"
    using acts_off_nth [OF rows square_zero_matrix assms] assms
    by (simp add: fold_pick1 zero_matrix_nth cross_value_def)
  moreover have "add_to (?rows (zero_matrix n)) 0 0 v ! a ! b = ?rows (zero_matrix n) ! a ! b" for v
    unfolding add_to_def using acts_off_nth [OF acts_off_diag sq assms] .
  ultimately show ?thesis
    by (simp add: buildQ_filter_def Let_def)
qed

lemma buildQ_mesh_offdiag:
  assumes "a < n" and "b < n" and "a \<noteq> b"
  shows "buildQ_mesh sq alpha theta mu lambda n C P budget Kmax Mmin ! a ! b
         = cross_value theta mu lambda C P a b"
proof -
  let ?diag = "fold (mesh_diag sq alpha theta mu lambda C P budget Kmax Mmin) [0..<n]"
  let ?cross = "fold (\<lambda>i. fold (cross_terms theta mu lambda C P i) [0..<n]) [0..<n]"
  have diag: "acts_off n ?diag (\<lambda>a b. fold (\<lambda>i q. q) [0..<n])"
    by (rule acts_off_fold) (rule acts_off_mesh_diag)
  have cross: "acts_off n ?cross
     (\<lambda>a b. fold (\<lambda>i q. if i = a then
                 fadd (fadd (fadd q (fmul (fmul (fmul 2 theta) (C ! a)) (C ! b))) (fmul 2 mu))
                      (fmul (fmul (fmul 2 lambda) (P ! a)) (P ! b))
               else q) [0..<n])"
    by (rule acts_off_fold) (rule acts_off_cross_row)
  have sq1: "square n (?diag (zero_matrix n))"
    by (rule acts_off_square [OF diag square_zero_matrix])
  have sq2: "square n (?cross (?diag (zero_matrix n)))"
    by (rule acts_off_square [OF cross sq1])
  have d: "?diag (zero_matrix n) ! a ! b = 0"
    using acts_off_nth [OF diag square_zero_matrix assms] assms
    by (simp add: fold_keep zero_matrix_nth)
  have "?cross (?diag (zero_matrix n)) ! a ! b = cross_value theta mu lambda C P a b"
    using acts_off_nth [OF cross sq1 assms] assms
    by (simp add: fold_pick1 d cross_value_def)
  moreover have "add_to (?cross (?diag (zero_matrix n))) 0 0 v ! a ! b
                 = ?cross (?diag (zero_matrix n)) ! a ! b" for v
    unfolding add_to_def using acts_off_nth [OF acts_off_diag sq2 assms] .
  ultimately show ?thesis
    by (simp add: buildQ_mesh_def Let_def)
qed

text \<open>The built matrices have \<open>n\<close> rows of \<open>n\<close> entries.\<close>

lemma square_add_to: "square n Q \<Longrightarrow> square n (add_to Q i j v)"
  unfolding add_to_def by (rule square_apply_at)

lemma square_buildQ_filter:
  "square n (buildQ_filter sq alpha gamma theta mu lambda n C P E budget max_grids min_population)"
  unfolding buildQ_filter_def Let_def
  by (rule square_add_to, rule acts_off_square [OF acts_off_fold square_zero_matrix],
      rule acts_off_filter_row)

lemma square_buildQ_mesh:
  "square n (buildQ_mesh sq alpha theta mu lambda n C P budget Kmax Mmin)"
  unfolding buildQ_mesh_def Let_def
  by (rule square_add_to,
      rule acts_off_square [OF acts_off_fold acts_off_square [OF acts_off_fold square_zero_matrix]],
      rule acts_off_cross_row, rule acts_off_mesh_diag)

section \<open>Symmetry of the QUBO matrix\<close>

text \<open>
  The roundings met when the entries \<open>(0, 1)\<close> and \<open>(1, 0)\<close> are computed for costs 15000 and
  15006, coverage 100 and the weights of the filter handler.
\<close>

lemma dbl_cross_0: "dbl (1 / 1000000) = 4722366482869645 / 4722366482869645213696"
  by (subst dbl_eval [where p = "- 20" and e = "- 72"]) (simp_all add: round_even_def)

lemma dbl_cross_1: "dbl (1 / 100) = 5764607523034235 / 576460752303423488"
  by (subst dbl_eval [where p = "- 7" and e = "- 59"]) (simp_all add: round_even_def)

lemma dbl_cross_2: "dbl (4722366482869645 / 2361183241434822606848) = 4722366482869645 / 2361183241434822606848"
  by (subst dbl_eval [where p = "- 19" and e = "- 71"]) (simp_all add: round_even_def)

lemma dbl_cross_3: "dbl (8854437155380584375 / 295147905179352825856) = 1080863910568919 / 36028797018963968"
  by (subst dbl_eval [where p = "- 6" and e = "- 58"]) (simp_all add: round_even_def)

lemma dbl_cross_4: "dbl (8109721920998599257 / 18014398509481984) = 7919650313475195 / 17592186044416"
  by (subst dbl_eval [where p = 8 and e = "- 44"]) (simp_all add: round_even_def)

lemma dbl_cross_5: "dbl (7919650313475195 / 17592186044416) = 7919650313475195 / 17592186044416"
  by (subst dbl_eval [where p = 8 and e = "- 44"]) (simp_all add: round_even_def)

lemma dbl_cross_7: "dbl (7990019057652859 / 17592186044416) = 7990019057652859 / 17592186044416"
  by (subst dbl_eval [where p = 8 and e = "- 44"]) (simp_all add: round_even_def)

lemma dbl_cross_8: "dbl (5764607523034235 / 288230376151711744) = 5764607523034235 / 288230376151711744"
  by (subst dbl_eval [where p = "- 6" and e = "- 58"]) (simp_all add: round_even_def)

lemma dbl_cross_9: "dbl (144115188075855875 / 72057594037927936) = 2"
  by (subst dbl_eval [where p = 1 and e = "- 51"]) (simp_all add: round_even_def)

lemma dbl_cross_11: "dbl (11508456266536059 / 17592186044416) = 2877114066634015 / 4398046511104"
  by (subst dbl_eval [where p = 9 and e = "- 43"]) (simp_all add: round_even_def)

lemma dbl_cross_12: "dbl (35431915720970946435 / 1180591620717411303424) = 2162592512266293 / 72057594037927936"
  by (subst dbl_eval [where p = "- 6" and e = "- 58"]) (simp_all add: round_even_def)

lemma dbl_cross_13: "dbl (4054860960499299375 / 9007199254740992) = 3959825156737597 / 8796093022208"
  by (subst dbl_eval [where p = 8 and e = "- 44"]) (simp_all add: round_even_def)

lemma dbl_cross_14: "dbl (3959825156737597 / 8796093022208) = 3959825156737597 / 8796093022208"
  by (subst dbl_eval [where p = 8 and e = "- 44"]) (simp_all add: round_even_def)

lemma dbl_cross_15: "dbl (3995009528826429 / 8796093022208) = 3995009528826429 / 8796093022208"
  by (subst dbl_eval [where p = 8 and e = "- 44"]) (simp_all add: round_even_def)

lemma dbl_cross_16: "dbl (5754228133268029 / 8796093022208) = 5754228133268029 / 8796093022208"
  by (subst dbl_eval [where p = 9 and e = "- 43"]) (simp_all add: round_even_def)

lemmas dbl_cross = dbl_cross_0 dbl_cross_1 dbl_cross_2 dbl_cross_3 dbl_cross_4 dbl_cross_5 dbl_cross_7 dbl_cross_8 dbl_cross_9 dbl_cross_11 dbl_cross_12 dbl_cross_13 dbl_cross_14 dbl_cross_15 dbl_cross_16

lemma cross_value_0_1:
  "cross_value (dbl (1 / 1000000)) 2 (dbl (1 / 100)) [15000, 15006] [100, 100] 0 1
   = 2877114066634015 / 4398046511104"
  by (simp add: cross_value_def fmul_def fadd_def dbl_cross dbl_numeral)

lemma cross_value_1_0:
  "cross_value (dbl (1 / 1000000)) 2 (dbl (1 / 100)) [15000, 15006] [100, 100] 1 0
   = 5754228133268029 / 8796093022208"
  by (simp add: cross_value_def fmul_def fadd_def dbl_cross dbl_numeral)

text \<open>
  Claim C6 says that the built matrix has \<open>Q[i][j] = Q[j][i]\<close> for all \<open>i \<noteq> j\<close>. In filter
  mode the product \<^verbatim>\<open>2 * theta * C[i] * C[j]\<close> is rounded after each factor, and the two
  orders of the factors 15000 and 15006 give entries that differ in the last place
  (654.1800000000001 and 654.18).
\<close>

theorem qubo_filter_entries_differ_in_doubles:
  "buildQ_filter sq_rounded (dbl (1 / 10)) (dbl (1 / 10)) (dbl (1 / 1000000)) 2 (dbl (1 / 100)) 2
      [15000, 15006] [100, 100] [700, 800] 50000 10 15000 ! 0 ! 1
     = 2877114066634015 / 4398046511104
   \<and> buildQ_filter sq_rounded (dbl (1 / 10)) (dbl (1 / 10)) (dbl (1 / 1000000)) 2 (dbl (1 / 100)) 2
      [15000, 15006] [100, 100] [700, 800] 50000 10 15000 ! 1 ! 0
     = 5754228133268029 / 8796093022208
   \<and> buildQ_filter sq_rounded (dbl (1 / 10)) (dbl (1 / 10)) (dbl (1 / 1000000)) 2 (dbl (1 / 100)) 2
      [15000, 15006] [100, 100] [700, 800] 50000 10 15000 ! 0 ! 1
     \<noteq> buildQ_filter sq_rounded (dbl (1 / 10)) (dbl (1 / 10)) (dbl (1 / 1000000)) 2 (dbl (1 / 100)) 2
      [15000, 15006] [100, 100] [700, 800] 50000 10 15000 ! 1 ! 0"
proof -
  have h01: "(0::nat) < 2" "(1::nat) < 2" "(0::nat) \<noteq> 1"
    by simp_all
  have h10: "(1::nat) < 2" "(0::nat) < 2" "(1::nat) \<noteq> 0"
    by simp_all
  have a: "buildQ_filter sq_rounded (dbl (1 / 10)) (dbl (1 / 10)) (dbl (1 / 1000000)) 2 (dbl (1 / 100)) 2
      [15000, 15006] [100, 100] [700, 800] 50000 10 15000 ! 0 ! 1 = 2877114066634015 / 4398046511104"
    using buildQ_filter_offdiag [OF h01] by (simp only: cross_value_0_1)
  have b: "buildQ_filter sq_rounded (dbl (1 / 10)) (dbl (1 / 10)) (dbl (1 / 1000000)) 2 (dbl (1 / 100)) 2
      [15000, 15006] [100, 100] [700, 800] 50000 10 15000 ! 1 ! 0 = 5754228133268029 / 8796093022208"
    using buildQ_filter_offdiag [OF h10] by (simp only: cross_value_1_0)
  show ?thesis
    unfolding a b by simp
qed

text \<open>
  Claim C6, amended. In the matrix built by either handler, \<open>Q[i][j] = Q[j][i]\<close> for all
  \<open>i \<noteq> j\<close> whose candidates have the same cost and the same coverage. That is every pair in
  mesh mode, where each candidate carries the cell price and the coverage 1. For any pair
  the two entries are the value \<open>cross_value\<close> of \<^verbatim>\<open>2*theta*C[i]*C[j] + 2*mu + 2*lambda*P[i]*P[j]\<close>
  accumulated in doubles, with the factors of \<open>i\<close> and \<open>j\<close> in the two orders.
\<close>

theorem qubo_offdiagonal_symmetric_for_equal_candidates:
  assumes "i < n" and "j < n" and "i \<noteq> j"
  shows "(C ! i = C ! j \<and> P ! i = P ! j \<longrightarrow>
            buildQ_filter sq alpha gamma theta mu lambda n C P E budget max_grids min_population ! i ! j
          = buildQ_filter sq alpha gamma theta mu lambda n C P E budget max_grids min_population ! j ! i
          \<and> buildQ_mesh sq alpha theta mu lambda n C P budget Kmax Mmin ! i ! j
          = buildQ_mesh sq alpha theta mu lambda n C P budget Kmax Mmin ! j ! i)
     \<and> buildQ_mesh sq alpha theta mu lambda n (replicate n c) (replicate n 1) budget Kmax Mmin ! i ! j
       = buildQ_mesh sq alpha theta mu lambda n (replicate n c) (replicate n 1) budget Kmax Mmin ! j ! i
     \<and> buildQ_filter sq alpha gamma theta mu lambda n C P E budget max_grids min_population ! i ! j
       = cross_value theta mu lambda C P i j
     \<and> buildQ_filter sq alpha gamma theta mu lambda n C P E budget max_grids min_population ! j ! i
       = cross_value theta mu lambda C P j i
     \<and> buildQ_mesh sq alpha theta mu lambda n C P budget Kmax Mmin ! i ! j
       = cross_value theta mu lambda C P i j
     \<and> buildQ_mesh sq alpha theta mu lambda n C P budget Kmax Mmin ! j ! i
       = cross_value theta mu lambda C P j i"
proof -
  have ji: "j \<noteq> i"
    using assms(3) by simp
  have eq: "cross_value theta mu lambda C P i j = cross_value theta mu lambda C P j i"
    if "C ! i = C ! j \<and> P ! i = P ! j"
    using that by (simp add: cross_value_def)
  have rep: "cross_value theta mu lambda (replicate n c) (replicate n 1) i j
             = cross_value theta mu lambda (replicate n c) (replicate n 1) j i"
    using assms(1,2) by (simp add: cross_value_def)
  show ?thesis
    using eq rep
    by (simp add: buildQ_filter_offdiag [OF assms] buildQ_filter_offdiag [OF assms(2,1) ji]
        buildQ_mesh_offdiag [OF assms] buildQ_mesh_offdiag [OF assms(2,1) ji])
qed

theorem qubo_offdiagonal_symmetric_for_equal_candidates_witness:
  "(0::nat) < 2 \<and> (1::nat) < 2 \<and> (0::nat) \<noteq> 1
   \<and> [15000, 15000 :: real] ! 0 = [15000, 15000] ! 1 \<and> [100, 100 :: real] ! 0 = [100, 100] ! 1
   \<and> buildQ_filter sq_rounded (dbl (1 / 10)) (dbl (1 / 10)) (dbl (1 / 1000000)) 2 (dbl (1 / 100)) 2
        [15000, 15000] [100, 100] [700, 800] 50000 10 15000 ! 0 ! 1
     = buildQ_filter sq_rounded (dbl (1 / 10)) (dbl (1 / 10)) (dbl (1 / 1000000)) 2 (dbl (1 / 100)) 2
        [15000, 15000] [100, 100] [700, 800] 50000 10 15000 ! 1 ! 0
   \<and> buildQ_mesh sq_rounded 1 1000 1000 1000 2 (replicate 2 10) (replicate 2 1) 100 10 0 ! 0 ! 1
     = buildQ_mesh sq_rounded 1 1000 1000 1000 2 (replicate 2 10) (replicate 2 1) 100 10 0 ! 1 ! 0"
proof -
  have h: "(0::nat) < 2" "(1::nat) < 2" "(0::nat) \<noteq> 1"
    by simp_all
  have e: "[15000, 15000 :: real] ! 0 = [15000, 15000] ! 1 \<and> [100, 100 :: real] ! 0 = [100, 100] ! 1"
    by simp
  note t = qubo_offdiagonal_symmetric_for_equal_candidates [OF h,
      of "[15000, 15000]" "[100, 100]" sq_rounded "dbl (1 / 10)" "dbl (1 / 10)" "dbl (1 / 1000000)" 2
        "dbl (1 / 100)" "[700, 800]" 50000 10 15000 10 0 10]
  have "buildQ_filter sq_rounded (dbl (1 / 10)) (dbl (1 / 10)) (dbl (1 / 1000000)) 2 (dbl (1 / 100)) 2
        [15000, 15000] [100, 100] [700, 800] 50000 10 15000 ! 0 ! 1
     = buildQ_filter sq_rounded (dbl (1 / 10)) (dbl (1 / 10)) (dbl (1 / 1000000)) 2 (dbl (1 / 100)) 2
        [15000, 15000] [100, 100] [700, 800] 50000 10 15000 ! 1 ! 0"
    using t e by blast
  moreover have "buildQ_mesh sq_rounded 1 1000 1000 1000 2 (replicate 2 10) (replicate 2 1) 100 10 0 ! 0 ! 1
     = buildQ_mesh sq_rounded 1 1000 1000 1000 2 (replicate 2 10) (replicate 2 1) 100 10 0 ! 1 ! 0"
    using qubo_offdiagonal_symmetric_for_equal_candidates [OF h,
      of "[]" "[]" sq_rounded 1 0 1000 1000 1000 "[]" 100 0 0 10 0 10]
    by (elim conjE)
  ultimately show ?thesis
    by simp
qed
section \<open>The quadratic form against the specified objective\<close>

text \<open>The two matrices of the comparison, entry by entry.\<close>

lemma dbl_neg_numeral: "numeral k < (2::int) ^ 53 \<Longrightarrow> dbl (- numeral k) = - numeral k"
  using dbl_of_int [of "- numeral k"] by simp

lemma replicate_two: "replicate 2 x = [x, x]"
  by (simp add: numeral_2_eq_2)

lemma upt_two: "[0..<2] = [0, 1]"
  by (simp add: upt_rec)

lemmas build_defs = zero_matrix_def apply_at_def add_to_def sub_from_def cross_terms_def
  filter_diag_def filter_row_def mesh_diag_def sq_rounded_def fadd_def fsub_def fmul_def
  replicate_two upt_two Let_def dbl_numeral dbl_neg_numeral dbl_zero dbl_one

lemma mesh_instance:
  "buildQ_mesh sq_rounded 1 1000 1000 1000 2 [1, 1] [1, 1] 2 2 0 = [[3000, 6000], [6000, - 5000]]"
  by (simp add: buildQ_mesh_def build_defs)

lemma dbl_filter_3: "dbl (450359962737049625 / 9007199254740992) = 50"
  by (subst dbl_eval [where p = 5 and e = "- 47"]) (simp_all add: round_even_def)

lemma dbl_filter_4: "dbl (630503947831869475 / 9007199254740992) = 70"
  by (subst dbl_eval [where p = 6 and e = "- 46"]) (simp_all add: round_even_def)

lemma dbl_filter_5: "dbl (- (1844674407370955078125 / 1152921504606846976)) = - 1600"
  by (subst dbl_eval [where p = 10 and e = "- 42"]) (simp_all add: round_even_def)

lemma dbl_filter_6: "dbl (- (5314247560297185390625 / 36028797018963968)) = - 147500"
  by (subst dbl_eval [where p = 17 and e = "- 35"]) (simp_all add: round_even_def)

lemma dbl_filter_8: "dbl (2951479051793528125 / 73786976294838206464) = 5764607523034235 / 144115188075855872"
  by (subst dbl_eval [where p = "- 5" and e = "- 57"]) (simp_all add: round_even_def)

lemma dbl_filter_9: "dbl (10808639105689190625 / 9007199254740992) = 1200"
  by (subst dbl_eval [where p = 10 and e = "- 42"]) (simp_all add: round_even_def)

lemma dbl_filter_11: "dbl (720575940379279375 / 72057594037927936) = 10"
  by (subst dbl_eval [where p = 3 and e = "- 49"]) (simp_all add: round_even_def)

lemma dbl_filter_12: "dbl (270215977642229775 / 4503599627370496) = 60"
  by (subst dbl_eval [where p = 5 and e = "- 47"]) (simp_all add: round_even_def)

lemma dbl_filter_13: "dbl (90071992547409925 / 1125899906842624) = 80"
  by (subst dbl_eval [where p = 6 and e = "- 46"]) (simp_all add: round_even_def)

lemma dbl_filter_14: "dbl (- (38738162554790056640625 / 18446744073709551616)) = - 2100"
  by (subst dbl_eval [where p = 11 and e = "- 41"]) (simp_all add: round_even_def)

lemma dbl_filter_15: "dbl (- (1588869948536311021875 / 9007199254740992)) = - 176400"
  by (subst dbl_eval [where p = 17 and e = "- 35"]) (simp_all add: round_even_def)

lemma dbl_filter_16: "dbl (8854437155380584375 / 147573952589676412928) = 1080863910568919 / 18014398509481984"
  by (subst dbl_eval [where p = "- 5" and e = "- 57"]) (simp_all add: round_even_def)

lemma dbl_filter_17: "dbl (675539944105574375 / 562949953421312) = 1200"
  by (subst dbl_eval [where p = 10 and e = "- 42"]) (simp_all add: round_even_def)

lemma dbl_filter_18: "dbl (432345564227567625 / 36028797018963968) = 12"
  by (subst dbl_eval [where p = 3 and e = "- 49"]) (simp_all add: round_even_def)

lemma dbl_filter_19: "dbl (46116860184273876953125 / 18446744073709551616) = 2500"
  by (subst dbl_eval [where p = 11 and e = "- 41"]) (simp_all add: round_even_def)

lemma dbl_filter_20: "dbl (20266198323167232421875 / 9007199254740992) = 2250000"
  by (subst dbl_eval [where p = 21 and e = "- 31"]) (simp_all add: round_even_def)

lemmas dbl_filter = dbl_tenth dbl_cross_0 dbl_cross_1 dbl_cross_2 dbl_cross_8
  dbl_filter_3 dbl_filter_4 dbl_filter_5 dbl_filter_6 dbl_filter_8 dbl_filter_9 dbl_filter_11 dbl_filter_12 dbl_filter_13 dbl_filter_14 dbl_filter_15 dbl_filter_16 dbl_filter_17 dbl_filter_18 dbl_filter_19 dbl_filter_20

lemma filter_instance:
  "buildQ_filter sq_rounded (dbl (1 / 10)) (dbl (1 / 10)) (dbl (1 / 1000000)) 2 (dbl (1 / 100)) 2
     [20000, 30000] [500, 600] [700, 800] 50000 10 15000 = [[2123442, 7204], [7204, - 148678]]"
  by (simp add: buildQ_filter_def build_defs dbl_filter)

lemma quadratic_form_two:
  "quadratic_form [[a, b], [c, d]] 2 [x, y]
   = a * real_of_int x * real_of_int x + b * real_of_int x * real_of_int y
     + c * real_of_int y * real_of_int x + d * real_of_int y * real_of_int y"
  by (simp add: quadratic_form_def upt_two)

text \<open>
  Claim C1 says that \<open>x\<^sup>T Q x\<close> over the built matrix equals the objective plus the three
  squared penalties. The code does not give that value. The cross terms carry the factor
  2 and are stored at both \<open>(i, j)\<close> and \<open>(j, i)\<close>, so the quadratic form counts them twice
  (selection \<open>[1, 1]\<close>), and the constant of the squares is added to \<open>Q[0][0]\<close>, so it is
  counted only when candidate 0 is selected (selection \<open>[0, 1]\<close>). This holds in mesh mode
  and in filter mode. On both inputs every entry of the built matrix is an integer: the
  roundings of the construction do not show in the values.
\<close>

theorem qubo_form_is_not_spec_objective:
  "quadratic_form (buildQ_mesh sq_rounded 1 1000 1000 1000 2 [1, 1] [1, 1] 2 2 0) 2 [1, 1] = 10000
   \<and> spec_objective 1 0 1000 1000 1000 2 [1, 1] [1, 1] [0, 0] 2 2 0 [1, 1] = 4000
   \<and> quadratic_form (buildQ_mesh sq_rounded 1 1000 1000 1000 2 [1, 1] [1, 1] 2 2 0) 2 [0, 1] = - 5000
   \<and> spec_objective 1 0 1000 1000 1000 2 [1, 1] [1, 1] [0, 0] 2 2 0 [0, 1] = 3000
   \<and> quadratic_form (buildQ_filter sq_rounded (dbl (1/10)) (dbl (1/10)) (dbl (1/1000000)) 2 (dbl (1/100)) 2
         [20000, 30000] [500, 600] [700, 800] 50000 10 15000) 2 [1, 1] = 1989172
   \<and> spec_objective (1/10) (1/10) (1/1000000) 2 (1/100) 2
         [20000, 30000] [500, 600] [700, 800] 50000 10 15000 [1, 1] = 1981968"
proof (intro conjI)
  show "quadratic_form (buildQ_mesh sq_rounded 1 1000 1000 1000 2 [1, 1] [1, 1] 2 2 0) 2 [1, 1] = 10000"
    by (simp add: mesh_instance quadratic_form_two)
  show "quadratic_form (buildQ_mesh sq_rounded 1 1000 1000 1000 2 [1, 1] [1, 1] 2 2 0) 2 [0, 1] = - 5000"
    by (simp add: mesh_instance quadratic_form_two)
  show "quadratic_form (buildQ_filter sq_rounded (dbl (1/10)) (dbl (1/10)) (dbl (1/1000000)) 2 (dbl (1/100)) 2
         [20000, 30000] [500, 600] [700, 800] 50000 10 15000) 2 [1, 1] = 1989172"
    by (simp add: filter_instance quadratic_form_two)
  show "spec_objective 1 0 1000 1000 1000 2 [1, 1] [1, 1] [0, 0] 2 2 0 [1, 1] = 4000"
    by code_simp
  show "spec_objective 1 0 1000 1000 1000 2 [1, 1] [1, 1] [0, 0] 2 2 0 [0, 1] = 3000"
    by code_simp
  show "spec_objective (1/10) (1/10) (1/1000000) 2 (1/100) 2
         [20000, 30000] [500, 600] [700, 800] 50000 10 15000 [1, 1] = 1981968"
    by code_simp
qed


section \<open>A run of the annealing search that ends above its initial state\<close>

lemma exp_small:
  fixes T :: real
  assumes "0 < T" and "T \<le> 20"
  shows "\<not> (1 / 2 < exp (- 100 / T))"
proof -
  have "100 / T \<ge> 5"
    using assms by (simp add: pos_le_divide_eq)
  then have "- 100 / T \<le> - 5" by simp
  then have "exp (- 100 / T) \<le> exp (- 5 :: real)"
    by (simp only: exp_le_cancel_iff)
  moreover have "exp (5 :: real) \<ge> 1 + 5"
    by (rule exp_ge_add_one_self)
  then have "exp (- 5 :: real) \<le> 1 / 6"
    by (simp add: exp_minus inverse_eq_divide pos_divide_le_eq mult.commute)
  ultimately show ?thesis by linarith
qed

lemma uphill_energy:
  "sa_energy uphill_Q 2 uphill_candidates 10 [0, 0] = 0"
  "sa_energy uphill_Q 2 uphill_candidates 10 [1, 0] = 1"
  "sa_energy uphill_Q 2 uphill_candidates 10 [1, 1] = 101"
  by (simp_all add: sa_energy_def quadratic_form_def uphill_Q_def uphill_candidates_def
      mk_candidate_def upt_rec numeral_2_eq_2)

lemma uphill_first_step:
  "uphill_inv (sa_step uphill_draws uphill_Q 2 uphill_candidates 10 (999 / 1000)
     \<lparr>sa_x = [0, 0], sa_bestX = [0, 0], sa_bestE = None, sa_T = 20, sa_calls = 0\<rparr>)"
  by (simp add: sa_step_def uphill_draws_def uphill_energy uphill_inv_def below_best_def Let_def)

lemma uphill_step:
  assumes "uphill_inv st"
  shows "uphill_inv (sa_step uphill_draws uphill_Q 2 uphill_candidates 10 (999 / 1000) st)"
proof -
  have st: "sa_x st = [1, 0]" "sa_bestX st = [1, 0]" "sa_bestE st = Some 1"
    "0 < sa_T st" "sa_T st \<le> 20" "2 \<le> sa_calls st"
    using assms by (simp_all add: uphill_inv_def)
  have i: "nat \<lfloor>uphill_draws (sa_calls st) * 2\<rfloor> = 1"
    using st(6) by (simp add: uphill_draws_def)
  have x2: "[1, 0 :: int][1 := 1 - [1, 0] ! 1] = [1, 1]"
    by simp
  have rej: "\<not> (uphill_draws (Suc (sa_calls st)) < exp (- (100 / sa_T st)))"
    using exp_small [OF st(4,5)] st(6) by (simp add: uphill_draws_def)
  have T: "0 < sa_T st * (999 / 1000)" "sa_T st * (999 / 1000) \<le> 20"
    using st(4,5) by simp_all
  show ?thesis
    using rej T st(6)
    by (simp add: sa_step_def Let_def st(1,2,3) i x2 uphill_energy uphill_inv_def)
qed

lemma uphill_loop:
  "uphill_inv st \<Longrightarrow>
   sa_loop uphill_draws uphill_Q 2 uphill_candidates 10 maxIter (999 / 1000) iter st = [1, 0]"
proof (induction "maxIter - iter" arbitrary: iter st)
  case 0
  then show ?case
    by (simp add: uphill_inv_def)
next
  case (Suc d)
  let ?st' = "sa_step uphill_draws uphill_Q 2 uphill_candidates 10 (999 / 1000) st"
  have inv': "uphill_inv ?st'"
    by (rule uphill_step [OF Suc.prems])
  have lt: "iter < maxIter" and d: "d = maxIter - (iter + 1)"
    using Suc.hyps(2) by simp_all
  have "sa_loop uphill_draws uphill_Q 2 uphill_candidates 10 maxIter (999 / 1000) (iter + 1) ?st'
        = [1, 0]"
    by (rule Suc.hyps(1) [OF d inv'])
  moreover have "sa_bestX ?st' = [1, 0]"
    using inv' by (simp add: uphill_inv_def)
  ultimately show ?case
    using lt by (subst sa_loop.simps) (simp add: Let_def)
qed

text \<open>
  Claim C4 says that the returned vector has an energy no larger than that of any state
  the run evaluated, the initial all-zero state included. On the run below, with the
  default parameters, the search returns \<open>[1, 0]\<close> of energy 1, while the initial state,
  whose energy the first iteration computes, has energy 0.
\<close>

theorem annealing_returns_worse_than_initial:
  "annealing_default uphill_draws uphill_Q 2 uphill_candidates 10 = [1, 0]
   \<and> sa_energy uphill_Q 2 uphill_candidates 10 [1, 0] = 1
   \<and> sa_energy uphill_Q 2 uphill_candidates 10 (replicate 2 0) = 0"
proof -
  let ?st0 = "\<lparr>sa_x = [0, 0], sa_bestX = [0, 0], sa_bestE = None, sa_T = 20, sa_calls = 0\<rparr>"
  let ?st1 = "sa_step uphill_draws uphill_Q 2 uphill_candidates 10 (999 / 1000) ?st0"
  have rep: "replicate 2 (0::int) = [0, 0]"
    by (simp add: numeral_2_eq_2)
  have inv: "uphill_inv ?st1"
    by (rule uphill_first_step)
  have "sa_loop uphill_draws uphill_Q 2 uphill_candidates 10 10000 (999 / 1000) 0 ?st0 =
        (if sa_T ?st1 < 1 / 1000000 then sa_bestX ?st1
         else sa_loop uphill_draws uphill_Q 2 uphill_candidates 10 10000 (999 / 1000) (0 + 1) ?st1)"
    by (subst sa_loop.simps) (simp add: Let_def)
  also have "\<dots> = [1, 0]"
    using uphill_loop [OF inv, of 10000 "0 + 1"] inv by (simp add: uphill_inv_def)
  finally have "annealing_default uphill_draws uphill_Q 2 uphill_candidates 10 = [1, 0]"
    by (simp only: annealing_default_def simulatedAnnealingQUBO_def rep)
  then show ?thesis
    by (simp add: rep uphill_energy)
qed

section \<open>Output with a logging line after the result record\<close>


lemma lines: "split_lines (trim logged_stdout) = [record_line, ''Optimization finished'']"
  by code_simp

text \<open>
  Claim C5 says that the output of a solver that exited with status 0 is scanned from its
  last line backward, so that a logging line after the result record does no harm. For
  any \<open>JSON.parse\<close> that reads the record line and rejects the logging line,
  \<open>gurobiQUBOBudget\<close> fails on such an output; the handler of the quantum solver returns
  the record's indices on the same output.
\<close>

theorem trailing_log_line_breaks_gurobi_bridge:
  assumes "reads_record parse"
  shows "gurobiQUBOBudget parse \<lparr>proc_status = 0, proc_stdout = logged_stdout, proc_stderr = []\<rparr> [c0, c1]
           = Inl (Gurobi_optimization_failed Syntax_error)
         \<and> quantum_read parse logged_stdout = Inr [JNum 0]"
  using assms
  by (simp add: gurobiQUBOBudget_def gurobi_read_def quantum_read_def lines reads_record_def
      record_value_def falsy_def)

theorem trailing_log_line_breaks_gurobi_bridge_witness:
  "reads_record table_parse
   \<and> gurobiQUBOBudget table_parse \<lparr>proc_status = 0, proc_stdout = logged_stdout, proc_stderr = []\<rparr>
        [True, False] = Inl (Gurobi_optimization_failed Syntax_error)
   \<and> quantum_read table_parse logged_stdout = Inr [JNum 0]"
proof -
  have r: "reads_record table_parse"
    by (simp add: reads_record_def table_parse_def record_line_def)
  show ?thesis
    using trailing_log_line_breaks_gurobi_bridge [OF r, of True False] r by simp
qed

section \<open>Validation of a solve request\<close>

lemma handler_filter_invalid:
  assumes "body_polygon b = None \<or> (\<exists>polygon. body_polygon b = Some polygon \<and> length polygon \<noteq> 4)
         \<or> body_budget b = None \<or> (\<exists>budget. body_budget b = Some budget \<and> budget \<le> 0)
         \<or> body_popCenter b = None"
  shows "handler_filter e b = (Invalid_input, [])"
  by (cases "body_polygon b"; cases "body_budget b"; cases "body_popCenter b")
    (use assms in \<open>simp_all add: handler_filter_def\<close>)

lemma handler_mesh_invalid:
  assumes "body_polygon b = None \<or> (\<exists>polygon. body_polygon b = Some polygon \<and> length polygon \<noteq> 4)
         \<or> body_budget b = None \<or> (\<exists>budget. body_budget b = Some budget \<and> budget \<le> 0)
         \<or> body_popCenter b = None"
  shows "handler_mesh e b = Some (Invalid_input, [])"
  by (cases "body_polygon b"; cases "body_budget b"; cases "body_cellSize b";
      cases "body_country b"; cases "body_popCenter b")
    (use assms in \<open>simp_all add: handler_mesh_def\<close>)

text \<open>
  Claim C8. A request whose polygon is missing or does not have exactly 4 vertices, whose
  budget is missing or not positive, or whose population center is missing, is answered
  with the invalid-input response by both handlers, and no stage has run.
\<close>

theorem invalid_input_rejected:
  assumes "body_polygon b = None \<or> (\<exists>polygon. body_polygon b = Some polygon \<and> length polygon \<noteq> 4)
         \<or> body_budget b = None \<or> (\<exists>budget. body_budget b = Some budget \<and> budget \<le> 0)
         \<or> body_popCenter b = None"
  shows "handler_filter e b = (Invalid_input, []) \<and> handler_mesh e b = Some (Invalid_input, [])"
  using handler_filter_invalid [OF assms] handler_mesh_invalid [OF assms] by (rule conjI)

theorem invalid_input_rejected_witness:
  "body_budget (sample_body\<lparr>body_budget := Some 0\<rparr>) = Some 0 \<and> (0::real) \<le> 0
   \<and> handler_filter empty_env (sample_body\<lparr>body_budget := Some 0\<rparr>) = (Invalid_input, [])
   \<and> handler_mesh empty_env (sample_body\<lparr>body_budget := Some 0\<rparr>) = Some (Invalid_input, [])
   \<and> body_popCenter (sample_body\<lparr>body_popCenter := None\<rparr>) = None
   \<and> handler_filter empty_env (sample_body\<lparr>body_popCenter := None\<rparr>) = (Invalid_input, [])
   \<and> handler_mesh empty_env (sample_body\<lparr>body_popCenter := None\<rparr>) = Some (Invalid_input, [])"
proof -
  have 1: "body_budget (sample_body\<lparr>body_budget := Some 0\<rparr>) = Some 0 \<and> (0::real) \<le> 0"
    by simp
  have 2: "body_popCenter (sample_body\<lparr>body_popCenter := None\<rparr>) = None"
    by simp
  show ?thesis
    using invalid_input_rejected [of "sample_body\<lparr>body_budget := Some 0\<rparr>" empty_env]
      invalid_input_rejected [of "sample_body\<lparr>body_popCenter := None\<rparr>" empty_env] 1 2
    by blast
qed

section \<open>Empty candidate sets\<close>

lemma handler_filter_empty:
  assumes "body_polygon b = Some polygon" and "length polygon = 4"
    and "body_budget b = Some budget" and "0 < budget"
    and "body_popCenter b = Some popCenter"
    and "filter_candidates e (close_ring polygon) popCenter = []"
  shows "handler_filter e b = (Grids [], [Candidates_generated])"
  using assms by (simp add: handler_filter_def)

lemma handler_mesh_empty:
  assumes "body_polygon b = Some polygon" and "length polygon = 4"
    and "body_budget b = Some budget" and "0 < budget"
    and "body_popCenter b = Some popCenter"
    and "body_cellSize b = Some cellSize" and "body_country b = Some country" and "country \<noteq> []"
    and "body_gridArea b = None \<or> (\<exists>gridArea. body_gridArea b = Some gridArea \<and> 0 < gridArea)"
    and "mesh_candidates e (close_ring polygon) budget cellSize popCenter = Some []"
  shows "handler_mesh e b = Some (Grids [], [Candidates_generated])"
  using assms by (cases "body_gridArea b") (simp_all add: handler_mesh_def)

text \<open>
  Claim C9. For a request that passes validation, when candidate generation yields no
  candidate the handler answers with the empty list of grids; the only stage that has run
  is the generation of candidates: the matrix is not built and no solver is invoked.
\<close>

theorem empty_candidates_short_circuit:
  assumes "body_polygon b = Some polygon" and "length polygon = 4"
    and "body_budget b = Some budget" and "0 < budget"
    and "body_popCenter b = Some popCenter"
  shows "(filter_candidates e (close_ring polygon) popCenter = [] \<longrightarrow>
            handler_filter e b = (Grids [], [Candidates_generated]))
       \<and> (body_cellSize b = Some cellSize \<and> body_country b = Some country \<and> country \<noteq> []
            \<and> (body_gridArea b = None \<or> (\<exists>gridArea. body_gridArea b = Some gridArea \<and> 0 < gridArea))
            \<and> mesh_candidates e (close_ring polygon) budget cellSize popCenter = Some [] \<longrightarrow>
            handler_mesh e b = Some (Grids [], [Candidates_generated]))"
  using handler_filter_empty [OF assms] handler_mesh_empty [OF assms] by blast

lemma mesh_candidates_empty_env:
  "price cellSize \<noteq> 0 \<Longrightarrow> fdiv budget (price cellSize) < 2 ^ 1024 \<Longrightarrow>
   mesh_candidates empty_env coords budget cellSize popCenter = Some []"
  by (simp add: mesh_candidates_def empty_env_def Let_def)

theorem empty_candidates_short_circuit_witness:
  "filter_candidates empty_env (close_ring [corner 0 0, corner 0 1, corner 1 1, corner 1 0]) (corner 0 0) = []
   \<and> handler_filter empty_env sample_body = (Grids [], [Candidates_generated])
   \<and> mesh_candidates empty_env (close_ring [corner 0 0, corner 0 1, corner 1 1, corner 1 0]) 100
        \<lparr>price = 10, cell_energy = 5\<rparr> (corner 0 0) = Some []
   \<and> handler_mesh empty_env sample_body = Some (Grids [], [Candidates_generated])"
proof -
  let ?polygon = "[corner 0 0, corner 0 1, corner 1 1, corner 1 0]"
  have f: "filter_candidates empty_env (close_ring ?polygon) (corner 0 0) = []"
    by (simp add: filter_candidates_def empty_env_def)
  have m: "mesh_candidates empty_env (close_ring ?polygon) 100 \<lparr>price = 10, cell_energy = 5\<rparr> (corner 0 0)
           = Some []"
    by (rule mesh_candidates_empty_env) (simp_all add: fdiv_def dbl_numeral)
  have h: "body_polygon sample_body = Some ?polygon" "length ?polygon = 4"
    "body_budget sample_body = Some 100" "(0::real) < 100"
    "body_popCenter sample_body = Some (corner 0 0)"
    by (simp_all add: sample_body_def)
  have c: "body_cellSize sample_body = Some \<lparr>price = 10, cell_energy = 5\<rparr>"
    "body_country sample_body = Some ''Ethiopia''" "''Ethiopia'' \<noteq> []"
    "body_gridArea sample_body = None \<or> (\<exists>gridArea. body_gridArea sample_body = Some gridArea \<and> 0 < gridArea)"
    by (simp_all add: sample_body_def)
  show ?thesis
    using empty_candidates_short_circuit [OF h, of empty_env "\<lparr>price = 10, cell_energy = 5\<rparr>" "''Ethiopia''"]
      f m c
    by blast
qed

end
